theory Spec2Isabelle
  imports Main "HOL-Library.Word" "HOL-Library.Multiset"
begin

section \<open>The helm client of devspace: data model\<close>

text \<open>
  The development embeds \<^verbatim>\<open>pkg/devspace/clients/helm/client.go\<close>. The Kubernetes
  clientset, the tiller installer, the port forwarder, the helm RPC client, the chart
  utilities and the local file system are external collaborators: each is a record of
  oracles, one per call the code makes. The state threaded through the code is the trace
  of calls issued so far; every oracle receives that trace, so that an answer may depend on
  everything that happened before (the number of polls, the time slept, earlier creations).

  The calls into package \<^verbatim>\<open>log\<close> only write to the terminal; they are events of the
  trace as well.

  A Go \<^verbatim>\<open>error\<close> is represented by its message (\<^verbatim>\<open>err.Error()\<close>); a \<^verbatim>\<open>nil\<close> error is
  \<open>None\<close>. A call returning \<^verbatim>\<open>(value, error)\<close> whose value is not read on failure is a sum
  with \<open>Inl\<close> for the error.
\<close>

type_synonym error = string

record PolicyRule =
  APIGroups :: "string list"
  Resources :: "string list"
  Verbs :: "string list"

record ServiceAccount =
  sa_Name :: string
  sa_Namespace :: string

record Role =
  role_Name :: string
  role_Namespace :: string
  role_Rules :: "PolicyRule list"

record Subject =
  subj_Kind :: string
  subj_Name :: string
  subj_Namespace :: string

record RoleRef =
  ref_APIGroup :: string
  ref_Kind :: string
  ref_Name :: string

record RoleBinding =
  rb_Name :: string
  rb_Namespace :: string
  rb_Subjects :: "Subject list"
  rb_RoleRef :: RoleRef

text \<open>The two counters of a deployment's status that the code reads (both \<^verbatim>\<open>int32\<close>).\<close>

record DeploymentStatus =
  Replicas :: "32 word"
  ReadyReplicas :: "32 word"

text \<open>\<^verbatim>\<open>helminstaller.Options\<close>, restricted to the fields the code sets.\<close>

record Options =
  opt_Namespace :: string
  opt_MaxHistory :: int
  opt_ImageSpec :: string
  opt_ServiceAccount :: string

text \<open>\<^verbatim>\<open>v1.PrivateConfig\<close>: \<^verbatim>\<open>Cluster.TillerNamespace\<close> and \<^verbatim>\<open>Release.Namespace\<close>.\<close>

record PrivateConfig =
  TillerNamespace :: string
  ReleaseNamespace :: string

text \<open>The options the code passes to \<^verbatim>\<open>UpdateRelease\<close> and \<^verbatim>\<open>InstallReleaseFromChart\<close>.\<close>

record UpdateOptions =
  UpgradeTimeout :: int
  UpdateValueOverrides :: string
  ReuseValues :: bool
  UpgradeWait :: bool

record InstallOptions =
  InstallTimeout :: int
  ValueOverrides :: string
  ReleaseName :: string
  InstallReuseName :: bool
  InstallWait :: bool

datatype chart = Chart (chart_Name: string) (GetDependencies: "chart list")

text \<open>A value of \<^verbatim>\<open>map[interface{}]interface{}\<close>: scalars, sequences and mappings.\<close>

datatype yaml = YScalar string | YSeq "yaml list" | YMap "(yaml \<times> yaml) list"

text \<open>An entry of the repository registry file (\<^verbatim>\<open>repo.Entry\<close>).\<close>

record Entry =
  entry_Name :: string
  entry_URL :: string
  entry_Cache :: string

text \<open>What a release RPC returns on success (\<^verbatim>\<open>hapi_release5.Release\<close>).\<close>

record Release =
  rel_Name :: string
  rel_Namespace :: string
  rel_Version :: int

subsection \<open>The trace of calls\<close>

datatype event =
    GetClientConfig
  | DeploymentsGet string string
  | ServiceAccountsGet string string
  | ServiceAccountsCreate string ServiceAccount
  | RolesCreate string Role
  | RoleBindingsCreate string RoleBinding
  | InstallerInstall Options
  | InstallerUpgrade Options
  | DeploymentsDelete string string
  | ServiceAccountsDelete string string
  | RolesDelete string string
  | RoleBindingsDelete string string
  | PortforwarderNew string
  | ListReleases nat
  | ReleaseHistory string nat
  | UpdateRelease string string UpdateOptions
  | InstallReleaseFromChart chart string InstallOptions
  | UninstallRelease string bool
  | ChartLoad string
  | LoadRequirements chart
  | ManagerUpdate
  | DownloadTo string string string
  | HomedirDir
  | MkdirAll string
  | Stat string
  | WriteToFile string string
  | LoadRepositoriesFile string
  | NewChartRepository Entry
  | DownloadIndexFile Entry string
  | Sleep int
  | LogStartWait string
  | LogStopWait
  | LogDone string
  | LogWithError error string
  | WgAdd int
  | GoFunc Entry
  | WgDone
  | WgWait

type_synonym trace = "event list"

subsection \<open>The external collaborators\<close>

text \<open>
  The cluster as reached through \<^verbatim>\<open>kubernetes.Clientset\<close>: the typed resource clients,
  \<^verbatim>\<open>helminstaller.Install/Upgrade\<close> and \<^verbatim>\<open>portforwarder.New\<close>. \<open>k_DeploymentsGet\<close>
  returns the object together with the error, because \<^verbatim>\<open>ensureTiller\<close> reads the status
  of the returned object after discarding the error (client-go returns a non-nil object
  on every path). \<open>k_PortforwarderNew\<close> returns the tunnel's local port.
\<close>

record kube =
  k_DeploymentsGet :: "trace \<Rightarrow> string \<Rightarrow> string \<Rightarrow> DeploymentStatus \<times> error option"
  k_ServiceAccountsGet :: "trace \<Rightarrow> string \<Rightarrow> string \<Rightarrow> error option"
  k_ServiceAccountsCreate :: "trace \<Rightarrow> string \<Rightarrow> ServiceAccount \<Rightarrow> error option"
  k_RolesCreate :: "trace \<Rightarrow> string \<Rightarrow> Role \<Rightarrow> error option"
  k_RoleBindingsCreate :: "trace \<Rightarrow> string \<Rightarrow> RoleBinding \<Rightarrow> error option"
  k_InstallerInstall :: "trace \<Rightarrow> Options \<Rightarrow> error option"
  k_InstallerUpgrade :: "trace \<Rightarrow> Options \<Rightarrow> error option"
  k_DeploymentsDelete :: "trace \<Rightarrow> string \<Rightarrow> string \<Rightarrow> error option"
  k_ServiceAccountsDelete :: "trace \<Rightarrow> string \<Rightarrow> string \<Rightarrow> error option"
  k_RolesDelete :: "trace \<Rightarrow> string \<Rightarrow> string \<Rightarrow> error option"
  k_RoleBindingsDelete :: "trace \<Rightarrow> string \<Rightarrow> string \<Rightarrow> error option"
  k_PortforwarderNew :: "trace \<Rightarrow> string \<Rightarrow> error + int"

subsection \<open>Constants of the package\<close>

definition tillerServiceAccountName :: string where
  "tillerServiceAccountName = ''devspace-tiller''"

definition tillerRoleName :: string where
  "tillerRoleName = ''devspace-tiller''"

definition tillerDeploymentName :: string where
  "tillerDeploymentName = ''tiller-deploy''"

definition APIGroupAll :: string where
  "APIGroupAll = ''*''"

definition ResourceAll :: string where
  "ResourceAll = ''*''"

definition ServiceAccountKind :: string where
  "ServiceAccountKind = ''ServiceAccount''"

definition defaultPolicyRules :: "PolicyRule list" where
  "defaultPolicyRules =
     [\<lparr>APIGroups = [APIGroupAll, ''extensions'', ''apps''],
       Resources = [ResourceAll],
       Verbs = [ResourceAll]\<rparr>]"

text \<open>The line feed that \<^verbatim>\<open>DeleteTiller\<close> puts after every message.\<close>

definition newline :: string where
  "newline = [CHR 0x0A]"

section \<open>Access bootstrapping\<close>

subsection \<open>\<^verbatim>\<open>ensureRoleBinding\<close>\<close>

text \<open>
  Builds the role and its binding and issues both creations. The source discards what
  the two \<^verbatim>\<open>Create\<close> calls return and ends with \<^verbatim>\<open>return nil\<close>; \<open>roleErr\<close> and
  \<open>bindingErr\<close> below are those discarded results.
\<close>

definition ensureRoleBinding ::
  "kube \<Rightarrow> string \<Rightarrow> string \<Rightarrow> string \<Rightarrow> PolicyRule list \<Rightarrow> trace \<Rightarrow> error option \<times> trace" where
  "ensureRoleBinding kubectlClient name namespace tillerNamespace rules tr =
     (let role = \<lparr>role_Name = name, role_Namespace = namespace, role_Rules = rules\<rparr>;
          rolebinding =
            \<lparr>rb_Name = name @ ''-binding'',
             rb_Namespace = namespace,
             rb_Subjects =
               [\<lparr>subj_Kind = ServiceAccountKind,
                 subj_Name = tillerServiceAccountName,
                 subj_Namespace = tillerNamespace\<rparr>],
             rb_RoleRef =
               \<lparr>ref_APIGroup = ''rbac.authorization.k8s.io'',
                ref_Kind = ''Role'',
                ref_Name = role_Name role\<rparr>\<rparr>;
          roleErr = k_RolesCreate kubectlClient tr namespace role;
          tr1 = tr @ [RolesCreate namespace role];
          bindingErr = k_RoleBindingsCreate kubectlClient tr1 namespace rolebinding;
          tr2 = tr1 @ [RoleBindingsCreate namespace rolebinding]
      in (None, tr2))"

subsection \<open>\<^verbatim>\<open>DeleteTiller\<close>\<close>

text \<open>\<^verbatim>\<open>errs = append(errs, err)\<close> under \<^verbatim>\<open>if err != nil\<close>.\<close>

definition append_err :: "error list \<Rightarrow> error option \<Rightarrow> error list" where
  "append_err errs err = (case err of None \<Rightarrow> errs | Some e \<Rightarrow> errs @ [e])"

text \<open>
  The loop \<^verbatim>\<open>for key, value := range deleteRoleNames\<close>: \<open>key\<close> is the index of \<open>value\<close>,
  and the namespace is read at that index from \<^verbatim>\<open>deleteRoleNamespaces\<close>. Both slices are
  literals of two elements, so the index is always in range.
\<close>

fun deleteRoles ::
  "kube \<Rightarrow> string list \<Rightarrow> string list \<Rightarrow> nat \<Rightarrow> error list \<Rightarrow> trace \<Rightarrow> error list \<times> trace" where
  "deleteRoles kubectlClient [] deleteRoleNamespaces key errs tr = (errs, tr)"
| "deleteRoles kubectlClient (v # rest) deleteRoleNamespaces key errs tr =
     (let ns = deleteRoleNamespaces ! key;
          err = k_RolesDelete kubectlClient tr ns v;
          tr1 = tr @ [RolesDelete ns v];
          errs1 = append_err errs err;
          err2 = k_RoleBindingsDelete kubectlClient tr1 ns (v @ ''-binding'');
          tr2 = tr1 @ [RoleBindingsDelete ns (v @ ''-binding'')];
          errs2 = append_err errs1 err2
      in deleteRoles kubectlClient rest deleteRoleNamespaces (key + 1) errs2 tr2)"

text \<open>\<^verbatim>\<open>errorText += value.Error() + "\n"\<close> for every collected error.\<close>

fun mergeErrors :: "string \<Rightarrow> error list \<Rightarrow> string" where
  "mergeErrors errorText [] = errorText"
| "mergeErrors errorText (v # rest) = mergeErrors (errorText @ v @ newline) rest"

definition DeleteTiller :: "kube \<Rightarrow> PrivateConfig \<Rightarrow> trace \<Rightarrow> error option \<times> trace" where
  "DeleteTiller kubectlClient privateConfig tr =
     (let errs = [];
          err = k_DeploymentsDelete kubectlClient tr (TillerNamespace privateConfig) tillerDeploymentName;
          tr1 = tr @ [DeploymentsDelete (TillerNamespace privateConfig) tillerDeploymentName];
          errs1 = append_err errs err;
          err2 = k_ServiceAccountsDelete kubectlClient tr1 (TillerNamespace privateConfig) tillerServiceAccountName;
          tr2 = tr1 @ [ServiceAccountsDelete (TillerNamespace privateConfig) tillerServiceAccountName];
          errs2 = append_err errs1 err2;
          deleteRoleNames = [''tiller-config-manager'', tillerRoleName];
          deleteRoleNamespaces = [TillerNamespace privateConfig, ReleaseNamespace privateConfig];
          (errs3, tr3) = deleteRoles kubectlClient deleteRoleNames deleteRoleNamespaces 0 errs2 tr2;
          errorText = mergeErrors [] errs3
      in if errorText = [] then (None, tr3) else (Some errorText, tr3))"


section \<open>The control-plane supervisor\<close>

text \<open>
  A \<^verbatim>\<open>time.Duration\<close> is a count of nanoseconds in an \<^verbatim>\<open>int64\<close>. The code only
  subtracts five seconds from two minutes until the value is no longer positive, far from
  the range's ends, so durations are unbounded integers here.
\<close>

definition Second :: int where
  "Second = 1000000000"

definition tillerCheckInterval :: int where
  "tillerCheckInterval = 5 * Second"

text \<open>
  The readiness loop of \<^verbatim>\<open>ensureTiller\<close>:
  \<^verbatim>\<open>for tillerWaitingTime > 0 { get; if ready == replicas { break }; sleep; subtract }\<close>.
  The error of the lookup is discarded by the source.
\<close>

function ensureTiller_poll :: "kube \<Rightarrow> PrivateConfig \<Rightarrow> int \<Rightarrow> trace \<Rightarrow> trace" where
  "ensureTiller_poll kubectlClient privateConfig tillerWaitingTime tr =
     (if tillerWaitingTime > 0 then
        (let tillerDeployment =
               fst (k_DeploymentsGet kubectlClient tr (TillerNamespace privateConfig) tillerDeploymentName);
             tr1 = tr @ [DeploymentsGet (TillerNamespace privateConfig) tillerDeploymentName]
         in if ReadyReplicas tillerDeployment = Replicas tillerDeployment then tr1
            else ensureTiller_poll kubectlClient privateConfig
                   (tillerWaitingTime - tillerCheckInterval) (tr1 @ [Sleep tillerCheckInterval]))
      else tr)"
  by pat_completeness auto
termination
  by (relation "measure (\<lambda>(k, c, w, t). nat w)")
     (auto simp: tillerCheckInterval_def Second_def)

text \<open>Lines 254 to 273: the bounded wait and the function's only way to its end.\<close>

definition ensureTiller_wait :: "kube \<Rightarrow> PrivateConfig \<Rightarrow> trace \<Rightarrow> error option \<times> trace" where
  "ensureTiller_wait kubectlClient privateConfig tr =
     (let tillerWaitingTime = 2 * 60 * Second;
          tr1 = tr @ [LogStartWait ''Waiting for Tiller server to start''];
          tr2 = ensureTiller_poll kubectlClient privateConfig tillerWaitingTime tr1
      in (None, tr2 @ [LogStopWait, LogDone ''Tiller server started'']))"

text \<open>
  The branch taken when the lookup of the deployment fails (``Tiller is not there''), up
  to its own \<^verbatim>\<open>log.StopWait()\<close>. A \<open>Some\<close> result is an early \<^verbatim>\<open>return err\<close>. What
  \<^verbatim>\<open>helminstaller.Install\<close> returns is discarded by the source.
\<close>

definition ensureTiller_install ::
  "kube \<Rightarrow> PrivateConfig \<Rightarrow> ServiceAccount \<Rightarrow> Options \<Rightarrow> trace \<Rightarrow> error option \<times> trace" where
  "ensureTiller_install kubectlClient privateConfig tillerSA tillerOptions tr =
     (let tr1 = tr @ [LogStartWait ''Installing Tiller server''];
          getErr = k_ServiceAccountsGet kubectlClient tr1 (sa_Namespace tillerSA) (sa_Name tillerSA);
          tr2 = tr1 @ [ServiceAccountsGet (sa_Namespace tillerSA) (sa_Name tillerSA)];
          (createErr, tr3) =
            (case getErr of
               None \<Rightarrow> (None, tr2)
             | Some _ \<Rightarrow>
                 (k_ServiceAccountsCreate kubectlClient tr2 (sa_Namespace tillerSA) tillerSA,
                  tr2 @ [ServiceAccountsCreate (sa_Namespace tillerSA) tillerSA]))
      in case createErr of
           Some err \<Rightarrow> (Some err, tr3)
         | None \<Rightarrow>
             (case ensureRoleBinding kubectlClient ''tiller-config-manager''
                     (TillerNamespace privateConfig) (TillerNamespace privateConfig)
                     [\<lparr>APIGroups = [APIGroupAll, ''extensions'', ''apps''],
                       Resources = [''configmaps''],
                       Verbs = [ResourceAll]\<rparr>] tr3 of
                (Some err, tr4) \<Rightarrow> (Some err, tr4)
              | (None, tr4) \<Rightarrow>
                  (let installErr = k_InstallerInstall kubectlClient tr4 tillerOptions;
                       tr5 = tr4 @ [InstallerInstall tillerOptions]
                   in case ensureRoleBinding kubectlClient tillerRoleName
                             (ReleaseNamespace privateConfig) (TillerNamespace privateConfig)
                             defaultPolicyRules tr5 of
                        (Some err, tr6) \<Rightarrow> (Some err, tr6)
                      | (None, tr6) \<Rightarrow> (None, tr6 @ [LogStopWait]))))"

text \<open>
  \<^verbatim>\<open>ensureTiller\<close>. The install branch registers \<^verbatim>\<open>defer log.StopWait()\<close>, which runs
  when the function returns, on every path through that branch: it is the last event
  there.
\<close>

definition ensureTiller :: "kube \<Rightarrow> PrivateConfig \<Rightarrow> bool \<Rightarrow> trace \<Rightarrow> error option \<times> trace" where
  "ensureTiller kubectlClient privateConfig upgrade tr =
     (let tillerSA =
            \<lparr>sa_Name = tillerServiceAccountName, sa_Namespace = TillerNamespace privateConfig\<rparr>;
          tillerOptions =
            \<lparr>opt_Namespace = TillerNamespace privateConfig,
             opt_MaxHistory = 10,
             opt_ImageSpec = ''gcr.io/kubernetes-helm/tiller:v2.9.1'',
             opt_ServiceAccount = sa_Name tillerSA\<rparr>;
          tillerCheckErr =
            snd (k_DeploymentsGet kubectlClient tr (TillerNamespace privateConfig) tillerDeploymentName);
          tr1 = tr @ [DeploymentsGet (TillerNamespace privateConfig) tillerDeploymentName]
      in case tillerCheckErr of
           Some _ \<Rightarrow>
             (case ensureTiller_install kubectlClient privateConfig tillerSA tillerOptions tr1 of
                (Some err, tr2) \<Rightarrow> (Some err, tr2 @ [LogStopWait])
              | (None, tr2) \<Rightarrow>
                  (let (res, tr3) = ensureTiller_wait kubectlClient privateConfig tr2
                   in (res, tr3 @ [LogStopWait])))
         | None \<Rightarrow>
             (if upgrade then
                (let tr2 = tr1 @ [LogStartWait ''Upgrading Tiller server''];
                     tillerOptions2 = tillerOptions\<lparr>opt_ImageSpec := []\<rparr>;
                     err = k_InstallerUpgrade kubectlClient tr2 tillerOptions2;
                     tr3 = tr2 @ [InstallerUpgrade tillerOptions2, LogStopWait]
                 in case err of
                      Some e \<Rightarrow> (Some e, tr3)
                    | None \<Rightarrow> ensureTiller_wait kubectlClient privateConfig tr3)
              else ensureTiller_wait kubectlClient privateConfig tr1))"

section \<open>The release client and the local machine\<close>

text \<open>The RPC client to the release server (\<^verbatim>\<open>k8shelm.Client\<close>).\<close>

record helm =
  c_ListReleases :: "trace \<Rightarrow> nat \<Rightarrow> error option"
  c_ReleaseHistory :: "trace \<Rightarrow> string \<Rightarrow> nat \<Rightarrow> error option"
  c_UpdateRelease :: "trace \<Rightarrow> string \<Rightarrow> string \<Rightarrow> UpdateOptions \<Rightarrow> error + Release"
  c_InstallReleaseFromChart :: "trace \<Rightarrow> chart \<Rightarrow> string \<Rightarrow> InstallOptions \<Rightarrow> error + Release"
  c_DeleteRelease :: "trace \<Rightarrow> string \<Rightarrow> bool \<Rightarrow> error + string"

text \<open>
  The local machine and the libraries that act on it. Pure library functions take no
  trace: \<open>h_NewHelmClient\<close> is \<^verbatim>\<open>k8shelm.NewClient\<close> with the options
  \<^verbatim>\<open>Host("127.0.0.1:" + port)\<close> and \<^verbatim>\<open>ConnectTimeout\<close>, given the port and the
  timeout; \<open>h_Dir\<close> is \<^verbatim>\<open>filepath.Dir\<close>; \<open>h_Marshal\<close> is \<^verbatim>\<open>yaml.Marshal\<close>;
  \<open>h_ErrReleaseNotFound\<close> is the message of
  \<^verbatim>\<open>helmstoragedriver.ErrReleaseNotFound(releaseName)\<close>.

  \<open>h_Sched\<close> is the scheduler of the Go runtime: given the trace so far and the number
  \<open>n\<close> of threads that can take a step, it names the one that does (its answer is read
  modulo \<open>n\<close>). Every step of a thread adds an event to the trace, so the traces at two
  scheduling points of one run differ, and every order in which the threads can take
  their steps is the run under some \<open>h_Sched\<close>.
\<close>

record host =
  h_GetClientConfig :: "trace \<Rightarrow> error option"
  h_NewHelmClient :: "int \<Rightarrow> int \<Rightarrow> helm"
  h_HomedirDir :: "trace \<Rightarrow> error + string"
  h_Dir :: "string \<Rightarrow> string"
  h_Stat :: "trace \<Rightarrow> string \<Rightarrow> error option"
  h_LoadRepositoriesFile :: "trace \<Rightarrow> string \<Rightarrow> error + Entry list"
  h_NewChartRepository :: "trace \<Rightarrow> Entry \<Rightarrow> error option"
  h_DownloadIndexFile :: "trace \<Rightarrow> Entry \<Rightarrow> string \<Rightarrow> error option"
  h_ChartLoad :: "trace \<Rightarrow> string \<Rightarrow> error + chart"
  h_LoadRequirements :: "trace \<Rightarrow> chart \<Rightarrow> error option"
  h_ManagerUpdate :: "trace \<Rightarrow> error option"
  h_Marshal :: "(yaml \<times> yaml) list \<Rightarrow> error + string"
  h_DownloadTo :: "trace \<Rightarrow> string \<Rightarrow> string \<Rightarrow> string \<Rightarrow> error + string"
  h_ErrReleaseNotFound :: "string \<Rightarrow> string"
  h_Sched :: "trace \<Rightarrow> nat \<Rightarrow> nat"

record HelmClientWrapper =
  Client :: helm
  Settings_Home :: string
  kubectl :: kube

text \<open>The methods of \<^verbatim>\<open>helmpath.Home\<close> the code calls, by the layout they name.\<close>

definition RepositoryFile :: "string \<Rightarrow> string" where
  "RepositoryFile home = home @ ''/repository/repositories.yaml''"

definition Archive :: "string \<Rightarrow> string" where
  "Archive home = home @ ''/archive''"

definition stableRepoCachePath :: string where
  "stableRepoCachePath = ''repository/cache/stable-index.yaml''"

definition defaultRepositories :: string where
  "defaultRepositories =
     ''apiVersion: v1'' @ newline @
     ''repositories:'' @ newline @
     ''- caFile: '' @ [CHR 0x22, CHR 0x22] @ newline @
     ''  cache: '' @ stableRepoCachePath @ newline @
     ''  certFile: '' @ [CHR 0x22, CHR 0x22] @ newline @
     ''  keyFile: '' @ [CHR 0x22, CHR 0x22] @ newline @
     ''  name: stable'' @ newline @
     ''  url: https://kubernetes-charts.storage.googleapis.com'' @ newline"

section \<open>The repository index syncer\<close>

text \<open>The first loop of \<^verbatim>\<open>updateRepos\<close>: it returns at the first entry that fails.\<close>

fun updateRepos_new :: "host \<Rightarrow> Entry list \<Rightarrow> Entry list \<Rightarrow> trace \<Rightarrow> (error + Entry list) \<times> trace" where
  "updateRepos_new h [] repos tr = (Inr repos, tr)"
| "updateRepos_new h (repoData # rest) repos tr =
     (case h_NewChartRepository h tr repoData of
        Some err \<Rightarrow> (Inl err, tr @ [NewChartRepository repoData])
      | None \<Rightarrow> updateRepos_new h rest (repos @ [repoData]) (tr @ [NewChartRepository repoData]))"

text \<open>
  The second loop (lines 382 to 400) starts one goroutine per repository, after
  \<^verbatim>\<open>wg.Add(1)\<close>, and \<^verbatim>\<open>wg.Wait()\<close> blocks the caller until the counter of the wait
  group is zero. Go fixes no order between the steps of the caller and of the goroutines,
  so the loop is a machine whose threads are interleaved by the scheduler.

  A goroutine runs the function literal: \<open>G_download\<close> is the state before
  \<^verbatim>\<open>re.DownloadIndexFile\<close>, \<open>G_log\<close> the state before
  \<^verbatim>\<open>log.With(err).Error("Unable to download repo index")\<close>, reached only when the
  download failed, and \<open>G_done\<close> the state before the deferred \<^verbatim>\<open>wg.Done()\<close>, after
  which the goroutine is gone.
\<close>

datatype goroutine = G_download Entry | G_log error | G_done

text \<open>
  The caller is at \<^verbatim>\<open>wg.Add(1)\<close> for the first of the repositories left (\<open>AtAdd\<close>; with
  none left it is at \<^verbatim>\<open>wg.Wait()\<close>), or at the \<^verbatim>\<open>go\<close> statement for a repository
  (\<open>AtGo\<close>).
\<close>

datatype caller = AtAdd "Entry list" | AtGo Entry "Entry list"

text \<open>The caller, the counter of the wait group, the live goroutines and the trace.\<close>

type_synonym join_state = "caller \<times> int \<times> goroutine list \<times> trace"

text \<open>
  What one step gives: no thread can take a step and \<^verbatim>\<open>wg.Wait()\<close> has not returned
  (\<open>Stuck\<close>; also when \<^verbatim>\<open>wg.Done()\<close> would make the counter negative, where Go
  panics), \<^verbatim>\<open>wg.Wait()\<close> returns (\<open>Returned\<close>), or the machine goes on.
\<close>

datatype join_result = Stuck | Returned trace | Next join_state

fun caller_step :: "join_state \<Rightarrow> join_result" where
  "caller_step (AtAdd [], wg, gs, tr) = Returned (tr @ [WgWait])"
| "caller_step (AtAdd (re # rest), wg, gs, tr) = Next (AtGo re rest, wg + 1, gs, tr @ [WgAdd 1])"
| "caller_step (AtGo re rest, wg, gs, tr) = Next (AtAdd rest, wg, gs @ [G_download re], tr @ [GoFunc re])"

text \<open>The step of the goroutine at position \<open>j\<close>.\<close>

fun goroutine_step :: "host \<Rightarrow> string \<Rightarrow> nat \<Rightarrow> join_state \<Rightarrow> join_result" where
  "goroutine_step h home j (c, wg, gs, tr) =
     (case gs ! j of
        G_download re \<Rightarrow>
          (case h_DownloadIndexFile h tr re home of
             None \<Rightarrow> Next (c, wg, gs[j := G_done], tr @ [DownloadIndexFile re home])
           | Some err \<Rightarrow> Next (c, wg, gs[j := G_log err], tr @ [DownloadIndexFile re home]))
      | G_log err \<Rightarrow>
          Next (c, wg, gs[j := G_done], tr @ [LogWithError err ''Unable to download repo index''])
      | G_done \<Rightarrow>
          (if wg - 1 < 0 then Stuck
           else Next (c, wg - 1, take j gs @ drop (Suc j) gs, tr @ [WgDone])))"

text \<open>
  The caller can take a step unless it is at \<^verbatim>\<open>wg.Wait()\<close> with a counter that is not
  zero; every live goroutine can. The scheduler picks among these threads, the caller
  first; the position read from the list of goroutines is always within the list.
\<close>

fun caller_runnable :: "caller \<Rightarrow> int \<Rightarrow> bool" where
  "caller_runnable (AtAdd []) wg = (wg = 0)"
| "caller_runnable (AtAdd (re # rest)) wg = True"
| "caller_runnable (AtGo re rest) wg = True"

fun join_step :: "host \<Rightarrow> string \<Rightarrow> join_state \<Rightarrow> join_result" where
  "join_step h home (c, wg, gs, tr) =
     (if caller_runnable c wg then
        (let i = h_Sched h tr (Suc (length gs)) mod Suc (length gs)
         in if i = 0 then caller_step (c, wg, gs, tr)
            else goroutine_step h home (i - 1) (c, wg, gs, tr))
      else if gs = [] then Stuck
      else goroutine_step h home (h_Sched h tr (length gs) mod length gs) (c, wg, gs, tr))"

text \<open>
  The number of steps the threads still have: five for a repository not yet started
  (two of the caller, three of its goroutine).
\<close>

fun goroutine_steps :: "goroutine \<Rightarrow> nat" where
  "goroutine_steps (G_download re) = 3"
| "goroutine_steps (G_log err) = 2"
| "goroutine_steps G_done = 1"

fun join_steps :: "join_state \<Rightarrow> nat" where
  "join_steps (AtAdd rest, wg, gs, tr) = 5 * length rest + sum_list (map goroutine_steps gs)"
| "join_steps (AtGo re rest, wg, gs, tr) = 5 * length rest + 4 + sum_list (map goroutine_steps gs)"

text \<open>
  The run of the machine to the return of \<^verbatim>\<open>wg.Wait()\<close>: the trace at that return, or
  \<open>None\<close> when the machine gets stuck and \<^verbatim>\<open>wg.Wait()\<close> never returns.
\<close>

function updateRepos_join :: "host \<Rightarrow> string \<Rightarrow> join_state \<Rightarrow> trace option" where
  "updateRepos_join h home s =
     (case join_step h home s of
        Stuck \<Rightarrow> None
      | Returned tr \<Rightarrow> Some tr
      | Next s' \<Rightarrow> updateRepos_join h home s')"
  by pat_completeness auto
termination
proof (relation "measure (\<lambda>(h, home, s). join_steps s)")
  show "wf (measure (\<lambda>(h, home, s). join_steps s))"
    by simp
next
  fix h :: host and home :: string and s s' :: join_state
  assume step: "join_step h home s = Next s'"
  obtain c wg gs tr where s: "s = (c, wg, gs, tr)"
    by (cases s)
  from step s have run: "join_step h home (c, wg, gs, tr) = Next s'"
    by simp
  have "join_steps s' < join_steps s"
  proof (cases "caller_runnable c wg \<and> h_Sched h tr (Suc (length gs)) mod Suc (length gs) = 0")
    case True
    with run have "caller_step (c, wg, gs, tr) = Next s'"
      by (simp add: Let_def del: goroutine_step.simps caller_step.simps)
    then show ?thesis
      unfolding s by (cases "(c, wg, gs, tr)" rule: caller_step.cases) auto
  next
    case False
    define j where "j = (if caller_runnable c wg
      then h_Sched h tr (Suc (length gs)) mod Suc (length gs) - 1
      else h_Sched h tr (length gs) mod length gs)"
    from run False have gs: "gs \<noteq> []"
      by (auto simp: Let_def split: if_splits simp del: goroutine_step.simps caller_step.simps)
    have j: "j < length gs"
    proof (cases "caller_runnable c wg")
      case True
      define x where "x = h_Sched h tr (Suc (length gs)) mod Suc (length gs)"
      have "x < Suc (length gs)"
        unfolding x_def by (rule mod_less_divisor) simp
      moreover from True False have "x \<noteq> 0"
        by (simp add: x_def)
      moreover from True have "j = x - 1"
        by (simp add: j_def x_def)
      ultimately show ?thesis
        by linarith
    next
      case False
      then have "j = h_Sched h tr (length gs) mod length gs"
        by (simp add: j_def)
      with gs show ?thesis
        by simp
    qed
    from run False gs have g: "goroutine_step h home j (c, wg, gs, tr) = Next s'"
      by (auto simp: Let_def j_def split: if_splits simp del: goroutine_step.simps caller_step.simps)
    have whole: "sum_list (map goroutine_steps gs) =
        sum_list (map goroutine_steps (take j gs)) + goroutine_steps (gs ! j)
        + sum_list (map goroutine_steps (drop (Suc j) gs))"
    proof -
      have "gs = take j gs @ gs ! j # drop (Suc j) gs"
        using j by (rule id_take_nth_drop)
      then have "sum_list (map goroutine_steps gs) =
          sum_list (map goroutine_steps (take j gs @ gs ! j # drop (Suc j) gs))"
        by simp
      then show ?thesis by simp
    qed
    have upd: "\<And>x. sum_list (map goroutine_steps (gs[j := x])) =
        sum_list (map goroutine_steps (take j gs)) + goroutine_steps x
        + sum_list (map goroutine_steps (drop (Suc j) gs))"
      using j by (simp add: upd_conv_take_nth_drop)
    show ?thesis
      using g whole upd unfolding s
      by (cases c; cases "gs ! j")
         (auto split: option.splits if_splits)
  qed
  then show "((h, home, s'), (h, home, s)) \<in> measure (\<lambda>(h, home, s). join_steps s)"
    by simp
qed

text \<open>
  \<^verbatim>\<open>updateRepos\<close>. The result is \<open>None\<close> when the call does not return, else the error
  it returns and the trace.
\<close>

definition updateRepos :: "host \<Rightarrow> HelmClientWrapper \<Rightarrow> trace \<Rightarrow> (error option \<times> trace) option" where
  "updateRepos h helmClientWrapper tr =
     (let file = RepositoryFile (Settings_Home helmClientWrapper);
          tr1 = tr @ [LoadRepositoriesFile file]
      in case h_LoadRepositoriesFile h tr file of
           Inl err \<Rightarrow> Some (Some err, tr1)
         | Inr allRepos \<Rightarrow>
             (case updateRepos_new h allRepos [] tr1 of
                (Inl err, tr2) \<Rightarrow> Some (Some err, tr2)
              | (Inr repos, tr2) \<Rightarrow>
                  (case updateRepos_join h (Settings_Home helmClientWrapper) (AtAdd repos, 0, [], tr2) of
                     None \<Rightarrow> None
                   | Some tr3 \<Rightarrow> Some (None, tr3))))"


section \<open>Client initialization\<close>

definition tunnelCheckInterval :: int where
  "tunnelCheckInterval = 5 * Second"

definition helmCheckInterval :: int where
  "helmCheckInterval = 5 * Second"

text \<open>
  The tunnel loop of \<^verbatim>\<open>NewClient\<close>. The loop state is the pair of variables
  \<^verbatim>\<open>tunnel\<close> (\<open>None\<close> for the nil pointer, else the local port) and \<^verbatim>\<open>tunnelErr\<close>;
  \<^verbatim>\<open>portforwarder.New\<close> assigns both.
\<close>

function NewClient_tunnel ::
  "kube \<Rightarrow> PrivateConfig \<Rightarrow> int \<Rightarrow> int option \<times> error option \<Rightarrow> trace
     \<Rightarrow> (int option \<times> error option) \<times> trace" where
  "NewClient_tunnel kubectlClient privateConfig tunnelWaitTime st tr =
     (if tunnelWaitTime > 0 then
        (let st1 =
               (case k_PortforwarderNew kubectlClient tr (TillerNamespace privateConfig) of
                  Inl err \<Rightarrow> (None, Some err)
                | Inr port \<Rightarrow> (Some port, None));
             tr1 = tr @ [PortforwarderNew (TillerNamespace privateConfig)]
         in if snd st1 = None \<or> tunnelWaitTime < 0 then (st1, tr1)
            else NewClient_tunnel kubectlClient privateConfig
                   (tunnelWaitTime - tunnelCheckInterval) st1 (tr1 @ [Sleep tunnelCheckInterval]))
      else (st, tr))"
  by pat_completeness auto
termination
  by (relation "measure (\<lambda>(k, c, w, s, t). nat w)")
     (auto simp: tunnelCheckInterval_def Second_def)

text \<open>
  The RPC health-check loop of \<^verbatim>\<open>NewClient\<close> (lines 130 to 136):
  \<^verbatim>\<open>for helmWaitTime > 0 { _, tillerError = client.ListReleases(limit 1);
  if tillerError == nil || helmWaitTime < 0 { break } }\<close>.
  The body neither sleeps nor changes \<^verbatim>\<open>helmWaitTime\<close>. The loop may run forever, so
  it is a partial function: \<open>None\<close> is not returning.
\<close>

partial_function (option) NewClient_health ::
  "helm \<Rightarrow> int \<Rightarrow> error option \<Rightarrow> trace \<Rightarrow> (error option \<times> trace) option" where
  "NewClient_health client helmWaitTime tillerError tr =
     (if helmWaitTime > 0 then
        (let tillerError1 = c_ListReleases client tr 1;
             tr1 = tr @ [ListReleases 1]
         in if tillerError1 = None \<or> helmWaitTime < 0 then Some (tillerError1, tr1)
            else NewClient_health client helmWaitTime tillerError1 tr1)
      else Some (tillerError, tr))"

text \<open>
  A Go function ends by returning or by panicking; \<^verbatim>\<open>NewClient\<close> reads
  \<^verbatim>\<open>tunnel.Local\<close>, which panics on a nil tunnel.
\<close>

datatype 'a outcome = Return 'a | Panic

text \<open>
  Lines 145 to 179 of \<^verbatim>\<open>NewClient\<close>: the local helm home and the wrapper. What
  \<^verbatim>\<open>updateRepos\<close> returns is discarded; the result is \<open>None\<close> when that call does not
  return.
\<close>

definition NewClient_home ::
  "host \<Rightarrow> kube \<Rightarrow> helm \<Rightarrow> trace
     \<Rightarrow> ((HelmClientWrapper option \<times> error option) \<times> trace) option" where
  "NewClient_home h kubectlClient client tr =
     (case h_HomedirDir h tr of
        Inl err \<Rightarrow> Some ((None, Some err), tr @ [HomedirDir])
      | Inr homeDir \<Rightarrow>
          (let tr1 = tr @ [HomedirDir];
               helmHomePath = homeDir @ ''/.devspace/helm'';
               repoPath = helmHomePath @ ''/repository'';
               repoFile = repoPath @ ''/repositories.yaml'';
               stableRepoCachePathAbs = helmHomePath @ ''/'' @ stableRepoCachePath;
               tr2 = tr1 @ [MkdirAll (helmHomePath @ ''/cache''), MkdirAll repoPath,
                            MkdirAll (h_Dir h stableRepoCachePathAbs)];
               repoFileNotFound = h_Stat h tr2 repoFile;
               tr3 = tr2 @ [Stat repoFile];
               tr4 = (case repoFileNotFound of
                        None \<Rightarrow> tr3
                      | Some _ \<Rightarrow> tr3 @ [WriteToFile defaultRepositories repoFile]);
               wrapper = \<lparr>Client = client, Settings_Home = helmHomePath, kubectl = kubectlClient\<rparr>;
               stableRepoCacheNotFoundErr = h_Stat h tr4 stableRepoCachePathAbs;
               tr5 = tr4 @ [Stat stableRepoCachePathAbs];
               tr6 = (case stableRepoCacheNotFoundErr of
                        None \<Rightarrow> Some tr5
                      | Some _ \<Rightarrow> map_option snd (updateRepos h wrapper tr5))
           in case tr6 of
                None \<Rightarrow> None
              | Some tr7 \<Rightarrow> Some ((Some wrapper, None), tr7)))"

text \<open>
  \<^verbatim>\<open>NewClient\<close>. \<^verbatim>\<open>config.LoadConfig(privateConfig)\<close> fills the package's configuration,
  which is the parameter \<open>privateConfig\<close> here. The result is \<open>None\<close> when the call does
  not return, else the pair the function returns (or a panic) and the trace.
\<close>

definition NewClient ::
  "host \<Rightarrow> PrivateConfig \<Rightarrow> kube \<Rightarrow> bool \<Rightarrow> trace
     \<Rightarrow> ((HelmClientWrapper option \<times> error option) outcome \<times> trace) option" where
  "NewClient h privateConfig kubectlClient upgradeTiller tr =
     (case h_GetClientConfig h tr of
        Some err \<Rightarrow> Some (Return (None, Some err), tr @ [GetClientConfig])
      | None \<Rightarrow>
          (case ensureTiller kubectlClient privateConfig upgradeTiller (tr @ [GetClientConfig]) of
             (Some tillerErr, tr1) \<Rightarrow> Some (Return (None, Some tillerErr), tr1)
           | (None, tr1) \<Rightarrow>
               (let tunnelWaitTime = 2 * 60 * Second;
                    tr2 = tr1 @ [LogStartWait ''Waiting for tiller portforwarding to become ready''];
                    ((tunnel, tunnelErr), tr3) =
                      NewClient_tunnel kubectlClient privateConfig tunnelWaitTime (None, None) tr2;
                    tr4 = tr3 @ [LogStopWait]
                in case tunnelErr of
                     Some err \<Rightarrow> Some (Return (None, Some err), tr4)
                   | None \<Rightarrow>
                       (case tunnel of
                          None \<Rightarrow> Some (Panic, tr4)
                        | Some port \<Rightarrow>
                            (let helmWaitTime = 2 * 60 * Second;
                                 client = h_NewHelmClient h port helmCheckInterval;
                                 tr5 = tr4 @ [LogStartWait ''Waiting for tiller server to become ready'']
                             in case NewClient_health client helmWaitTime None tr5 of
                                  None \<Rightarrow> None
                                | Some (tillerError, tr6) \<Rightarrow>
                                    (let tr7 = tr6 @ [LogStopWait, LogDone ''Tiller server is ready'']
                                     in case tillerError of
                                          Some err \<Rightarrow> Some (Return (None, Some err), tr7)
                                        | None \<Rightarrow>
                                            (case NewClient_home h kubectlClient client tr7 of
                                               None \<Rightarrow> None
                                             | Some (res, tr8) \<Rightarrow> Some (Return res, tr8))))))))"

section \<open>The release reconciler\<close>

text \<open>\<^verbatim>\<open>strings.HasPrefix\<close> and \<^verbatim>\<open>strings.Contains\<close> on byte strings.\<close>

fun HasPrefix :: "string \<Rightarrow> string \<Rightarrow> bool" where
  "HasPrefix s [] = True"
| "HasPrefix [] (c # cs) = False"
| "HasPrefix (d # ds) (c # cs) = (d = c \<and> HasPrefix ds cs)"

fun Contains :: "string \<Rightarrow> string \<Rightarrow> bool" where
  "Contains [] substr = (substr = [])"
| "Contains (c # cs) substr = (HasPrefix (c # cs) substr \<or> Contains cs substr)"

text \<open>\<^verbatim>\<open>ReleaseExists\<close>: the history query is capped with \<^verbatim>\<open>WithMaxHistory(1)\<close>.\<close>

definition ReleaseExists ::
  "host \<Rightarrow> HelmClientWrapper \<Rightarrow> string \<Rightarrow> trace \<Rightarrow> (bool \<times> error option) \<times> trace" where
  "ReleaseExists h helmClientWrapper releaseName tr =
     (let releaseHistoryErr = c_ReleaseHistory (Client helmClientWrapper) tr releaseName 1;
          tr1 = tr @ [ReleaseHistory releaseName 1]
      in case releaseHistoryErr of
           Some msg \<Rightarrow>
             (if Contains msg (h_ErrReleaseNotFound h releaseName) then ((False, None), tr1)
              else ((False, Some msg), tr1))
         | None \<Rightarrow> ((True, None), tr1))"

text \<open>
  Lines 420 to 453 of \<^verbatim>\<open>InstallChartByPath\<close>: load the chart and, when it declares
  dependencies, load its requirements, update them and load the chart again.
\<close>

definition InstallChartByPath_load :: "host \<Rightarrow> string \<Rightarrow> trace \<Rightarrow> (error + chart) \<times> trace" where
  "InstallChartByPath_load h chartPath tr =
     (let tr1 = tr @ [ChartLoad chartPath]
      in case h_ChartLoad h tr chartPath of
           Inl chartLoadingErr \<Rightarrow> (Inl chartLoadingErr, tr1)
         | Inr chart \<Rightarrow>
             (if length (GetDependencies chart) > 0 then
                (let tr2 = tr1 @ [LoadRequirements chart]
                 in case h_LoadRequirements h tr1 chart of
                      Some chartReqError \<Rightarrow> (Inl chartReqError, tr2)
                    | None \<Rightarrow>
                        (let tr3 = tr2 @ [ManagerUpdate]
                         in case h_ManagerUpdate h tr2 of
                              Some chartDownloadErr \<Rightarrow> (Inl chartDownloadErr, tr3)
                            | None \<Rightarrow> (h_ChartLoad h tr3 chartPath, tr3 @ [ChartLoad chartPath])))
              else (Inr chart, tr1)))"

text \<open>
  \<^verbatim>\<open>InstallChartByPath\<close>. \<open>values\<close> is the pointer argument: \<open>None\<close> is \<^verbatim>\<open>nil\<close>. The
  result is \<open>Inl\<close> for \<^verbatim>\<open>(nil, err)\<close> and \<open>Inr\<close> for \<^verbatim>\<open>(release, nil)\<close>.
\<close>

definition InstallChartByPath ::
  "host \<Rightarrow> HelmClientWrapper \<Rightarrow> string \<Rightarrow> string \<Rightarrow> string \<Rightarrow> (yaml \<times> yaml) list option \<Rightarrow> trace
     \<Rightarrow> (error + Release) \<times> trace" where
  "InstallChartByPath h helmClientWrapper releaseName releaseNamespace chartPath values tr =
     (case InstallChartByPath_load h chartPath tr of
        (Inl err, tr1) \<Rightarrow> (Inl err, tr1)
      | (Inr chart, tr1) \<Rightarrow>
          (case ReleaseExists h helmClientWrapper releaseName tr1 of
             ((_, Some releaseExistsErr), tr2) \<Rightarrow> (Inl releaseExistsErr, tr2)
           | ((releaseExists, None), tr2) \<Rightarrow>
               (let deploymentTimeout = 10 * 60;
                    marshalled =
                      (case values of
                         None \<Rightarrow> Inr []
                       | Some v \<Rightarrow> h_Marshal h v)
                in case marshalled of
                     Inl yamlErr \<Rightarrow> (Inl yamlErr, tr2)
                   | Inr overwriteValues \<Rightarrow>
                       (if releaseExists then
                          (let opts = \<lparr>UpgradeTimeout = deploymentTimeout,
                                       UpdateValueOverrides = overwriteValues,
                                       ReuseValues = False,
                                       UpgradeWait = True\<rparr>
                           in (c_UpdateRelease (Client helmClientWrapper) tr2 releaseName chartPath opts,
                               tr2 @ [UpdateRelease releaseName chartPath opts]))
                        else
                          (let opts = \<lparr>InstallTimeout = deploymentTimeout,
                                       ValueOverrides = overwriteValues,
                                       ReleaseName = releaseName,
                                       InstallReuseName = False,
                                       InstallWait = True\<rparr>
                           in (c_InstallReleaseFromChart (Client helmClientWrapper) tr2 chart
                                 releaseNamespace opts,
                               tr2 @ [InstallReleaseFromChart chart releaseNamespace opts]))))))"

text \<open>\<^verbatim>\<open>InstallChartByName\<close>: the version constraint handed to the chart downloader.\<close>

definition InstallChartByName_version :: "string \<Rightarrow> string" where
  "InstallChartByName_version chartVersion =
     (if length chartVersion = 0 then ''>0.0.0-0'' else chartVersion)"

definition InstallChartByName ::
  "host \<Rightarrow> HelmClientWrapper \<Rightarrow> string \<Rightarrow> string \<Rightarrow> string \<Rightarrow> string
     \<Rightarrow> (yaml \<times> yaml) list option \<Rightarrow> trace \<Rightarrow> (error + Release) \<times> trace" where
  "InstallChartByName h helmClientWrapper releaseName releaseNamespace chartName chartVersion values tr =
     (let chartVersion1 = InstallChartByName_version chartVersion;
          archive = Archive (Settings_Home helmClientWrapper);
          tr1 = tr @ [MkdirAll archive];
          tr2 = tr1 @ [DownloadTo chartName chartVersion1 archive]
      in case h_DownloadTo h tr1 chartName chartVersion1 archive of
           Inl chartDownloadErr \<Rightarrow> (Inl chartDownloadErr, tr2)
         | Inr chartPath \<Rightarrow>
             InstallChartByPath h helmClientWrapper releaseName releaseNamespace chartPath values tr2)"

definition DeleteRelease ::
  "HelmClientWrapper \<Rightarrow> string \<Rightarrow> bool \<Rightarrow> trace \<Rightarrow> (error + string) \<times> trace" where
  "DeleteRelease helmClientWrapper releaseName purge tr =
     (c_DeleteRelease (Client helmClientWrapper) tr releaseName purge,
      tr @ [UninstallRelease releaseName purge])"


section \<open>Observations on traces\<close>

text \<open>The repositories whose index download was started, in the order of the trace.\<close>

fun downloads :: "trace \<Rightarrow> Entry list" where
  "downloads [] = []"
| "downloads (DownloadIndexFile re home # evs) = re # downloads evs"
| "downloads (ev # evs) = downloads evs"

text \<open>The errors that were logged, in the order of the trace.\<close>

fun logged :: "trace \<Rightarrow> error list" where
  "logged [] = []"
| "logged (LogWithError err msg # evs) = err # logged evs"
| "logged (ev # evs) = logged evs"

text \<open>
  The errors of the index downloads that failed among the events \<open>evs\<close> that follow the
  trace \<open>pre\<close>: the answer to a download is the one the machine gave when the event was
  added.
\<close>

fun failed :: "host \<Rightarrow> trace \<Rightarrow> trace \<Rightarrow> error list" where
  "failed h pre [] = []"
| "failed h pre (DownloadIndexFile re home # evs) =
     (case h_DownloadIndexFile h pre re home of
        None \<Rightarrow> failed h (pre @ [DownloadIndexFile re home]) evs
      | Some err \<Rightarrow> err # failed h (pre @ [DownloadIndexFile re home]) evs)"
| "failed h pre (ev # evs) = failed h (pre @ [ev]) evs"

text \<open>The repositories the threads of the join have still to download, and the errors
  they have still to log.\<close>

fun to_start :: "caller \<Rightarrow> Entry list" where
  "to_start (AtAdd rest) = rest"
| "to_start (AtGo re rest) = re # rest"

fun to_download :: "goroutine list \<Rightarrow> Entry list" where
  "to_download [] = []"
| "to_download (G_download re # gs) = re # to_download gs"
| "to_download (g # gs) = to_download gs"

fun to_log :: "goroutine list \<Rightarrow> error list" where
  "to_log [] = []"
| "to_log (G_log err # gs) = err # to_log gs"
| "to_log (g # gs) = to_log gs"

text \<open>
  The counter of the wait group counts the live goroutines, and the one about to be
  started once the caller has passed \<^verbatim>\<open>wg.Add(1)\<close>.
\<close>

fun counted :: "join_state \<Rightarrow> bool" where
  "counted (AtAdd rest, wg, gs, tr) = (wg = int (length gs))"
| "counted (AtGo re rest, wg, gs, tr) = (wg = int (length gs) + 1)"

section \<open>Concrete environments\<close>

text \<open>
  Environments on which the definitions are evaluated: a configuration, a cluster on which
  every call succeeds and the tiller deployment is ready, and variations of it.
\<close>

definition cfg0 :: PrivateConfig where
  "cfg0 = \<lparr>TillerNamespace = ''kube-system'', ReleaseNamespace = ''default''\<rparr>"

definition cluster0 :: kube where
  "cluster0 =
     \<lparr>k_DeploymentsGet = (\<lambda>tr ns name. (\<lparr>Replicas = 1, ReadyReplicas = 1\<rparr>, None)),
      k_ServiceAccountsGet = (\<lambda>tr ns name. None),
      k_ServiceAccountsCreate = (\<lambda>tr ns sa. None),
      k_RolesCreate = (\<lambda>tr ns r. None),
      k_RoleBindingsCreate = (\<lambda>tr ns rb. None),
      k_InstallerInstall = (\<lambda>tr opts. None),
      k_InstallerUpgrade = (\<lambda>tr opts. None),
      k_DeploymentsDelete = (\<lambda>tr ns name. None),
      k_ServiceAccountsDelete = (\<lambda>tr ns name. None),
      k_RolesDelete = (\<lambda>tr ns name. None),
      k_RoleBindingsDelete = (\<lambda>tr ns name. None),
      k_PortforwarderNew = (\<lambda>tr ns. Inr 44134)\<rparr>"

text \<open>The deployment exists, wants one replica and never has a ready one.\<close>

definition stuck_cluster :: kube where
  "stuck_cluster =
     cluster0\<lparr>k_DeploymentsGet := (\<lambda>tr ns name. (\<lparr>Replicas = 1, ReadyReplicas = 0\<rparr>, None))\<rparr>"

text \<open>The API server refuses every creation of a role or a role binding.\<close>

definition forbidden_cluster :: kube where
  "forbidden_cluster =
     cluster0\<lparr>k_RolesCreate := (\<lambda>tr ns r. Some ''roles is forbidden''),
              k_RoleBindingsCreate := (\<lambda>tr ns rb. Some ''rolebindings is forbidden'')\<rparr>"

text \<open>The two roles are already gone; everything else is deleted without error.\<close>

definition roles_gone_cluster :: kube where
  "roles_gone_cluster =
     cluster0\<lparr>k_RolesDelete := (\<lambda>tr ns name. Some (''roles '' @ name @ '' not found''))\<rparr>"

text \<open>
  A release server that knows the single release \<open>web\<close>, and the message of
  \<^verbatim>\<open>ErrReleaseNotFound\<close> for a name that needs no escaping.
\<close>

definition ErrReleaseNotFound0 :: "string \<Rightarrow> string" where
  "ErrReleaseNotFound0 release = ''release: '' @ [CHR 0x22] @ release @ [CHR 0x22] @ '' not found''"

definition release0 :: Release where
  "release0 = \<lparr>rel_Name = ''web'', rel_Namespace = ''default'', rel_Version = 1\<rparr>"

definition helm0 :: helm where
  "helm0 =
     \<lparr>c_ListReleases = (\<lambda>tr limit. None),
      c_ReleaseHistory = (\<lambda>tr name limit.
         if name = ''web'' then None
         else if name = ''db'' then Some ''transport is closing''
         else Some (''rpc error: code = Unknown desc = '' @ ErrReleaseNotFound0 name)),
      c_UpdateRelease = (\<lambda>tr name path opts. Inr (release0\<lparr>rel_Name := name, rel_Version := 2\<rparr>)),
      c_InstallReleaseFromChart = (\<lambda>tr c ns opts.
         Inr (release0\<lparr>rel_Name := ReleaseName opts, rel_Namespace := ns\<rparr>)),
      c_DeleteRelease = (\<lambda>tr name purge. Inr name)\<rparr>"

text \<open>A release server whose every \<^verbatim>\<open>ListReleases\<close> call fails.\<close>

definition unreachable_helm :: helm where
  "unreachable_helm = helm0\<lparr>c_ListReleases := (\<lambda>tr limit. Some ''context deadline exceeded'')\<rparr>"

definition stable_entry :: Entry where
  "stable_entry =
     \<lparr>entry_Name = ''stable'',
      entry_URL = ''https://kubernetes-charts.storage.googleapis.com'',
      entry_Cache = ''repository/cache/stable-index.yaml''\<rparr>"

definition broken_entry :: Entry where
  "broken_entry =
     \<lparr>entry_Name = ''internal'',
      entry_URL = ''gopher://charts.internal'',
      entry_Cache = ''repository/cache/internal-index.yaml''\<rparr>"

text \<open>
  A scheduler: right after a \<^verbatim>\<open>go\<close> statement the goroutine just started takes a
  step, otherwise the first thread that can.
\<close>

definition newest_first :: "trace \<Rightarrow> nat \<Rightarrow> nat" where
  "newest_first tr n =
     (if tr = [] then 0
      else (case last tr of GoFunc re \<Rightarrow> n - 1 | ev \<Rightarrow> 0))"

definition host0 :: host where
  "host0 =
     \<lparr>h_GetClientConfig = (\<lambda>tr. None),
      h_NewHelmClient = (\<lambda>port timeout. helm0),
      h_HomedirDir = (\<lambda>tr. Inr ''/home/dev''),
      h_Dir = (\<lambda>path. ''/home/dev/.devspace/helm/repository/cache''),
      h_Stat = (\<lambda>tr path. None),
      h_LoadRepositoriesFile = (\<lambda>tr path. Inr [stable_entry]),
      h_NewChartRepository = (\<lambda>tr e.
         if take 8 (entry_URL e) = ''https://'' then None
         else Some ''could not find protocol handler''),
      h_DownloadIndexFile = (\<lambda>tr e home. None),
      h_ChartLoad = (\<lambda>tr path. Inr (Chart ''web'' [])),
      h_LoadRequirements = (\<lambda>tr c. None),
      h_ManagerUpdate = (\<lambda>tr. None),
      h_Marshal = (\<lambda>v. Inr ''replicas: 2''),
      h_DownloadTo = (\<lambda>tr name version dir. Inr (dir @ ''/'' @ name)),
      h_ErrReleaseNotFound = ErrReleaseNotFound0,
      h_Sched = newest_first\<rparr>"

text \<open>The same machine, reaching a release server that never answers a list call.\<close>

definition unreachable_host :: host where
  "unreachable_host = host0\<lparr>h_NewHelmClient := (\<lambda>port timeout. unreachable_helm)\<rparr>"

text \<open>The registry file lists a second entry, for which no chart repository can be built.\<close>

definition broken_entry_host :: host where
  "broken_entry_host =
     host0\<lparr>h_LoadRepositoriesFile := (\<lambda>tr path. Inr [stable_entry, broken_entry])\<rparr>"

text \<open>
  The registry file lists two repositories; the index of the first downloads, the index
  of the second does not.
\<close>

definition mirror_entry :: Entry where
  "mirror_entry =
     \<lparr>entry_Name = ''mirror'',
      entry_URL = ''https://charts.mirror.example'',
      entry_Cache = ''repository/cache/mirror-index.yaml''\<rparr>"

definition mixed_host :: host where
  "mixed_host =
     host0\<lparr>h_LoadRepositoriesFile := (\<lambda>tr path. Inr [stable_entry, mirror_entry]),
           h_DownloadIndexFile := (\<lambda>tr e home.
              if entry_Name e = ''mirror'' then Some ''no such host'' else None)\<rparr>"

text \<open>The service account and the installer options \<^verbatim>\<open>ensureTiller\<close> builds from \<open>cfg0\<close>.\<close>

definition tillerSA0 :: ServiceAccount where
  "tillerSA0 = \<lparr>sa_Name = ''devspace-tiller'', sa_Namespace = ''kube-system''\<rparr>"

definition tillerOptions0 :: Options where
  "tillerOptions0 =
     \<lparr>opt_Namespace = ''kube-system'',
      opt_MaxHistory = 10,
      opt_ImageSpec = ''gcr.io/kubernetes-helm/tiller:v2.9.1'',
      opt_ServiceAccount = ''devspace-tiller''\<rparr>"

definition wrapper0 :: HelmClientWrapper where
  "wrapper0 = \<lparr>Client = helm0, Settings_Home = ''/home/dev/.devspace/helm'', kubectl = cluster0\<rparr>"


section \<open>Access bootstrapping: results\<close>

subsection \<open>Auxiliary facts\<close>

lemma append_err_map_filter: "append_err errs err = errs @ List.map_filter id [err]"
  by (cases err) (simp_all add: append_err_def List.map_filter_simps)

lemma mergeErrors_concat: "mergeErrors acc errs = acc @ concat (map (\<lambda>msg. msg @ newline) errs)"
  by (induction errs arbitrary: acc) simp_all

lemma merged_empty_iff: "concat (map (\<lambda>msg. msg @ newline) errs) = [] \<longleftrightarrow> errs = []"
  by (cases errs) (simp_all add: newline_def)

lemma DeleteTiller_trace:
  "snd (DeleteTiller k cfg tr) =
     tr @ [DeploymentsDelete (TillerNamespace cfg) tillerDeploymentName,
           ServiceAccountsDelete (TillerNamespace cfg) tillerServiceAccountName,
           RolesDelete (TillerNamespace cfg) ''tiller-config-manager'',
           RoleBindingsDelete (TillerNamespace cfg) (''tiller-config-manager'' @ ''-binding''),
           RolesDelete (ReleaseNamespace cfg) tillerRoleName,
           RoleBindingsDelete (ReleaseNamespace cfg) (tillerRoleName @ ''-binding'')]"
  by (simp add: DeleteTiller_def Let_def)

subsection \<open>Creation errors of a grant\<close>

text \<open>
  Claim C3. \<^verbatim>\<open>ensureRoleBinding\<close> should treat only an already-existing resource as
  success and hand every other creation error to its caller. Evaluated on a cluster whose
  API server answers ``forbidden'' to the creation of a role, \<^verbatim>\<open>ensureRoleBinding\<close>
  returns \<^verbatim>\<open>nil\<close>: the refusal is not propagated.
\<close>

theorem ensureRoleBinding_swallows_forbidden:
  "k_RolesCreate forbidden_cluster [] ''default''
       \<lparr>role_Name = ''devspace-tiller'', role_Namespace = ''default'',
        role_Rules = defaultPolicyRules\<rparr> = Some ''roles is forbidden''
   \<and> fst (ensureRoleBinding forbidden_cluster ''devspace-tiller'' ''default'' ''kube-system''
            defaultPolicyRules []) = None"
  by (simp add: ensureRoleBinding_def forbidden_cluster_def cluster0_def Let_def)

subsection \<open>The role and its binding\<close>

text \<open>
  The binding created for the grant \<open>devspace-tiller\<close> is named
  \<open>devspace-tiller-binding\<close>: the role and its binding do not share one name.
\<close>

theorem grant_names_differ:
  "snd (ensureRoleBinding cluster0 ''devspace-tiller'' ''default'' ''kube-system'' defaultPolicyRules [])
     = [RolesCreate ''default''
          \<lparr>role_Name = ''devspace-tiller'', role_Namespace = ''default'',
           role_Rules = defaultPolicyRules\<rparr>,
        RoleBindingsCreate ''default''
          \<lparr>rb_Name = ''devspace-tiller-binding'', rb_Namespace = ''default'',
           rb_Subjects = [\<lparr>subj_Kind = ''ServiceAccount'', subj_Name = ''devspace-tiller'',
                          subj_Namespace = ''kube-system''\<rparr>],
           rb_RoleRef = \<lparr>ref_APIGroup = ''rbac.authorization.k8s.io'', ref_Kind = ''Role'',
                         ref_Name = ''devspace-tiller''\<rparr>\<rparr>]
   \<and> ''devspace-tiller'' \<noteq> ''devspace-tiller-binding''"
  by (simp add: ensureRoleBinding_def Let_def ServiceAccountKind_def tillerServiceAccountName_def)

text \<open>
  Claim C4, as the code has it. For every grant the binding is named after its role with
  the suffix \<open>-binding\<close>, lies in the role's namespace and refers to the role by name,
  and the pair is created and deleted as a unit. On a cluster that accepts the creation
  of roles and role bindings, one call of \<^verbatim>\<open>ensureRoleBinding\<close> creates the role and
  then its binding and returns \<^verbatim>\<open>nil\<close>. The install branch of \<^verbatim>\<open>ensureTiller\<close> creates
  two such pairs and no other role or binding, and \<^verbatim>\<open>DeleteTiller\<close>, on any cluster,
  deletes exactly these: each of the two roles by its name and namespace, followed at
  once by its binding. What \<^verbatim>\<open>ensureRoleBinding\<close> does on a cluster that refuses a
  creation is not part of this statement.
\<close>

theorem grant_pair_as_unit:
  assumes roles: "\<And>pre ns r. k_RolesCreate k pre ns r = None"
    and bindings: "\<And>pre ns rb. k_RoleBindingsCreate k pre ns rb = None"
    and install: "ensureTiller_install k cfg tillerSA tillerOptions tr = (None, tr1)"
  shows "(\<forall>name ns tns rules t. \<exists>role rb.
            ensureRoleBinding k name ns tns rules t
              = (None, t @ [RolesCreate ns role, RoleBindingsCreate ns rb])
          \<and> role_Name role = name \<and> role_Namespace role = ns
          \<and> rb_Name rb = name @ ''-binding'' \<and> rb_Namespace rb = ns
          \<and> ref_Name (rb_RoleRef rb) = name)
    \<and> (\<exists>role1 rb1 role2 rb2.
          tr1 = tr @ LogStartWait ''Installing Tiller server''
                   # ServiceAccountsGet (sa_Namespace tillerSA) (sa_Name tillerSA)
                   # (case k_ServiceAccountsGet k (tr @ [LogStartWait ''Installing Tiller server''])
                             (sa_Namespace tillerSA) (sa_Name tillerSA) of
                        None \<Rightarrow> []
                      | Some err \<Rightarrow> [ServiceAccountsCreate (sa_Namespace tillerSA) tillerSA])
                   @ [RolesCreate (role_Namespace role1) role1,
                      RoleBindingsCreate (role_Namespace role1) rb1,
                      InstallerInstall tillerOptions,
                      RolesCreate (role_Namespace role2) role2,
                      RoleBindingsCreate (role_Namespace role2) rb2,
                      LogStopWait]
        \<and> rb_Name rb1 = role_Name role1 @ ''-binding'' \<and> rb_Namespace rb1 = role_Namespace role1
        \<and> ref_Name (rb_RoleRef rb1) = role_Name role1
        \<and> rb_Name rb2 = role_Name role2 @ ''-binding'' \<and> rb_Namespace rb2 = role_Namespace role2
        \<and> ref_Name (rb_RoleRef rb2) = role_Name role2
        \<and> (\<forall>t. ensureRoleBinding k (role_Name role1) (role_Namespace role1) (TillerNamespace cfg)
                   (role_Rules role1) t
                 = (None, t @ [RolesCreate (role_Namespace role1) role1,
                               RoleBindingsCreate (role_Namespace role1) rb1]))
        \<and> (\<forall>t. ensureRoleBinding k (role_Name role2) (role_Namespace role2) (TillerNamespace cfg)
                   (role_Rules role2) t
                 = (None, t @ [RolesCreate (role_Namespace role2) role2,
                               RoleBindingsCreate (role_Namespace role2) rb2]))
        \<and> (\<forall>k2 tr2. snd (DeleteTiller k2 cfg tr2) =
              tr2 @ [DeploymentsDelete (TillerNamespace cfg) tillerDeploymentName,
                     ServiceAccountsDelete (TillerNamespace cfg) tillerServiceAccountName,
                     RolesDelete (role_Namespace role1) (role_Name role1),
                     RoleBindingsDelete (rb_Namespace rb1) (rb_Name rb1),
                     RolesDelete (role_Namespace role2) (role_Name role2),
                     RoleBindingsDelete (rb_Namespace rb2) (rb_Name rb2)]))"
proof (rule conjI)
  show "\<forall>name ns tns rules t. \<exists>role rb.
            ensureRoleBinding k name ns tns rules t
              = (None, t @ [RolesCreate ns role, RoleBindingsCreate ns rb])
          \<and> role_Name role = name \<and> role_Namespace role = ns
          \<and> rb_Name rb = name @ ''-binding'' \<and> rb_Namespace rb = ns
          \<and> ref_Name (rb_RoleRef rb) = name"
    by (simp add: ensureRoleBinding_def Let_def)
next
  let ?rules1 = "[\<lparr>APIGroups = [APIGroupAll, ''extensions'', ''apps''],
                   Resources = [''configmaps''], Verbs = [ResourceAll]\<rparr>]"
  let ?subjects = "[\<lparr>subj_Kind = ServiceAccountKind, subj_Name = tillerServiceAccountName,
                     subj_Namespace = TillerNamespace cfg\<rparr>]"
  let ?role1 = "\<lparr>role_Name = ''tiller-config-manager'', role_Namespace = TillerNamespace cfg,
                 role_Rules = ?rules1\<rparr>"
  let ?rb1 = "\<lparr>rb_Name = ''tiller-config-manager'' @ ''-binding'',
               rb_Namespace = TillerNamespace cfg, rb_Subjects = ?subjects,
               rb_RoleRef = \<lparr>ref_APIGroup = ''rbac.authorization.k8s.io'', ref_Kind = ''Role'',
                             ref_Name = ''tiller-config-manager''\<rparr>\<rparr>"
  let ?role2 = "\<lparr>role_Name = tillerRoleName, role_Namespace = ReleaseNamespace cfg,
                 role_Rules = defaultPolicyRules\<rparr>"
  let ?rb2 = "\<lparr>rb_Name = tillerRoleName @ ''-binding'',
               rb_Namespace = ReleaseNamespace cfg, rb_Subjects = ?subjects,
               rb_RoleRef = \<lparr>ref_APIGroup = ''rbac.authorization.k8s.io'', ref_Kind = ''Role'',
                             ref_Name = tillerRoleName\<rparr>\<rparr>"
  have erb: "\<And>name ns rules t. ensureRoleBinding k name ns (TillerNamespace cfg) rules t =
      (None, t @ [RolesCreate ns \<lparr>role_Name = name, role_Namespace = ns, role_Rules = rules\<rparr>,
                  RoleBindingsCreate ns
                    \<lparr>rb_Name = name @ ''-binding'', rb_Namespace = ns, rb_Subjects = ?subjects,
                     rb_RoleRef = \<lparr>ref_APIGroup = ''rbac.authorization.k8s.io'',
                                   ref_Kind = ''Role'', ref_Name = name\<rparr>\<rparr>])"
    by (simp add: ensureRoleBinding_def Let_def)
  have tr1: "tr1 = tr @ LogStartWait ''Installing Tiller server''
                   # ServiceAccountsGet (sa_Namespace tillerSA) (sa_Name tillerSA)
                   # (case k_ServiceAccountsGet k (tr @ [LogStartWait ''Installing Tiller server''])
                             (sa_Namespace tillerSA) (sa_Name tillerSA) of
                        None \<Rightarrow> []
                      | Some err \<Rightarrow> [ServiceAccountsCreate (sa_Namespace tillerSA) tillerSA])
                   @ [RolesCreate (TillerNamespace cfg) ?role1,
                      RoleBindingsCreate (TillerNamespace cfg) ?rb1,
                      InstallerInstall tillerOptions,
                      RolesCreate (ReleaseNamespace cfg) ?role2,
                      RoleBindingsCreate (ReleaseNamespace cfg) ?rb2,
                      LogStopWait]"
    using install
    by (auto simp: ensureTiller_install_def erb Let_def split: option.splits)
  have del: "\<And>k2 tr2. snd (DeleteTiller k2 cfg tr2) =
              tr2 @ [DeploymentsDelete (TillerNamespace cfg) tillerDeploymentName,
                     ServiceAccountsDelete (TillerNamespace cfg) tillerServiceAccountName,
                     RolesDelete (TillerNamespace cfg) ''tiller-config-manager'',
                     RoleBindingsDelete (TillerNamespace cfg) (''tiller-config-manager'' @ ''-binding''),
                     RolesDelete (ReleaseNamespace cfg) tillerRoleName,
                     RoleBindingsDelete (ReleaseNamespace cfg) (tillerRoleName @ ''-binding'')]"
    by (rule DeleteTiller_trace)
  show "\<exists>role1 rb1 role2 rb2.
          tr1 = tr @ LogStartWait ''Installing Tiller server''
                   # ServiceAccountsGet (sa_Namespace tillerSA) (sa_Name tillerSA)
                   # (case k_ServiceAccountsGet k (tr @ [LogStartWait ''Installing Tiller server''])
                             (sa_Namespace tillerSA) (sa_Name tillerSA) of
                        None \<Rightarrow> []
                      | Some err \<Rightarrow> [ServiceAccountsCreate (sa_Namespace tillerSA) tillerSA])
                   @ [RolesCreate (role_Namespace role1) role1,
                      RoleBindingsCreate (role_Namespace role1) rb1,
                      InstallerInstall tillerOptions,
                      RolesCreate (role_Namespace role2) role2,
                      RoleBindingsCreate (role_Namespace role2) rb2,
                      LogStopWait]
        \<and> rb_Name rb1 = role_Name role1 @ ''-binding'' \<and> rb_Namespace rb1 = role_Namespace role1
        \<and> ref_Name (rb_RoleRef rb1) = role_Name role1
        \<and> rb_Name rb2 = role_Name role2 @ ''-binding'' \<and> rb_Namespace rb2 = role_Namespace role2
        \<and> ref_Name (rb_RoleRef rb2) = role_Name role2
        \<and> (\<forall>t. ensureRoleBinding k (role_Name role1) (role_Namespace role1) (TillerNamespace cfg)
                   (role_Rules role1) t
                 = (None, t @ [RolesCreate (role_Namespace role1) role1,
                               RoleBindingsCreate (role_Namespace role1) rb1]))
        \<and> (\<forall>t. ensureRoleBinding k (role_Name role2) (role_Namespace role2) (TillerNamespace cfg)
                   (role_Rules role2) t
                 = (None, t @ [RolesCreate (role_Namespace role2) role2,
                               RoleBindingsCreate (role_Namespace role2) rb2]))
        \<and> (\<forall>k2 tr2. snd (DeleteTiller k2 cfg tr2) =
              tr2 @ [DeploymentsDelete (TillerNamespace cfg) tillerDeploymentName,
                     ServiceAccountsDelete (TillerNamespace cfg) tillerServiceAccountName,
                     RolesDelete (role_Namespace role1) (role_Name role1),
                     RoleBindingsDelete (rb_Namespace rb1) (rb_Name rb1),
                     RolesDelete (role_Namespace role2) (role_Name role2),
                     RoleBindingsDelete (rb_Namespace rb2) (rb_Name rb2)])"
    apply (rule exI [of _ ?role1], rule exI [of _ ?rb1], rule exI [of _ ?role2], rule exI [of _ ?rb2])
    apply (simp only: Role.simps RoleBinding.simps RoleRef.simps)
    apply (intro conjI allI)
            apply (rule tr1)
           apply (rule refl)+
      apply (rule erb)
     apply (rule erb)
    apply (rule del)
    done
qed

theorem grant_pair_as_unit_witness:
  "ensureTiller_install cluster0 cfg0 tillerSA0 tillerOptions0 [] =
     (None,
      [LogStartWait ''Installing Tiller server'',
       ServiceAccountsGet ''kube-system'' ''devspace-tiller'',
       RolesCreate ''kube-system''
         \<lparr>role_Name = ''tiller-config-manager'', role_Namespace = ''kube-system'',
          role_Rules = [\<lparr>APIGroups = [''*'', ''extensions'', ''apps''],
                          Resources = [''configmaps''], Verbs = [''*'']\<rparr>]\<rparr>,
       RoleBindingsCreate ''kube-system''
         \<lparr>rb_Name = ''tiller-config-manager-binding'', rb_Namespace = ''kube-system'',
          rb_Subjects = [\<lparr>subj_Kind = ''ServiceAccount'', subj_Name = ''devspace-tiller'',
                          subj_Namespace = ''kube-system''\<rparr>],
          rb_RoleRef = \<lparr>ref_APIGroup = ''rbac.authorization.k8s.io'', ref_Kind = ''Role'',
                         ref_Name = ''tiller-config-manager''\<rparr>\<rparr>,
       InstallerInstall tillerOptions0,
       RolesCreate ''default''
         \<lparr>role_Name = ''devspace-tiller'', role_Namespace = ''default'',
          role_Rules = [\<lparr>APIGroups = [''*'', ''extensions'', ''apps''],
                          Resources = [''*''], Verbs = [''*'']\<rparr>]\<rparr>,
       RoleBindingsCreate ''default''
         \<lparr>rb_Name = ''devspace-tiller-binding'', rb_Namespace = ''default'',
          rb_Subjects = [\<lparr>subj_Kind = ''ServiceAccount'', subj_Name = ''devspace-tiller'',
                          subj_Namespace = ''kube-system''\<rparr>],
          rb_RoleRef = \<lparr>ref_APIGroup = ''rbac.authorization.k8s.io'', ref_Kind = ''Role'',
                         ref_Name = ''devspace-tiller''\<rparr>\<rparr>,
       LogStopWait])
   \<and> snd (DeleteTiller roles_gone_cluster cfg0 []) =
      [DeploymentsDelete ''kube-system'' ''tiller-deploy'',
       ServiceAccountsDelete ''kube-system'' ''devspace-tiller'',
       RolesDelete ''kube-system'' ''tiller-config-manager'',
       RoleBindingsDelete ''kube-system'' ''tiller-config-manager-binding'',
       RolesDelete ''default'' ''devspace-tiller'',
       RoleBindingsDelete ''default'' ''devspace-tiller-binding'']"
proof -
  have roles: "\<And>pre ns r. k_RolesCreate cluster0 pre ns r = None"
    by (simp add: cluster0_def)
  have bindings: "\<And>pre ns rb. k_RoleBindingsCreate cluster0 pre ns rb = None"
    by (simp add: cluster0_def)
  have sa: "k_ServiceAccountsGet cluster0 [LogStartWait ''Installing Tiller server'']
      (sa_Namespace tillerSA0) (sa_Name tillerSA0) = None"
    by (simp add: cluster0_def)
  let ?T = "[LogStartWait ''Installing Tiller server'',
       ServiceAccountsGet ''kube-system'' ''devspace-tiller'',
       RolesCreate ''kube-system''
         \<lparr>role_Name = ''tiller-config-manager'', role_Namespace = ''kube-system'',
          role_Rules = [\<lparr>APIGroups = [''*'', ''extensions'', ''apps''],
                          Resources = [''configmaps''], Verbs = [''*'']\<rparr>]\<rparr>,
       RoleBindingsCreate ''kube-system''
         \<lparr>rb_Name = ''tiller-config-manager-binding'', rb_Namespace = ''kube-system'',
          rb_Subjects = [\<lparr>subj_Kind = ''ServiceAccount'', subj_Name = ''devspace-tiller'',
                          subj_Namespace = ''kube-system''\<rparr>],
          rb_RoleRef = \<lparr>ref_APIGroup = ''rbac.authorization.k8s.io'', ref_Kind = ''Role'',
                         ref_Name = ''tiller-config-manager''\<rparr>\<rparr>,
       InstallerInstall tillerOptions0,
       RolesCreate ''default''
         \<lparr>role_Name = ''devspace-tiller'', role_Namespace = ''default'',
          role_Rules = [\<lparr>APIGroups = [''*'', ''extensions'', ''apps''],
                          Resources = [''*''], Verbs = [''*'']\<rparr>]\<rparr>,
       RoleBindingsCreate ''default''
         \<lparr>rb_Name = ''devspace-tiller-binding'', rb_Namespace = ''default'',
          rb_Subjects = [\<lparr>subj_Kind = ''ServiceAccount'', subj_Name = ''devspace-tiller'',
                          subj_Namespace = ''kube-system''\<rparr>],
          rb_RoleRef = \<lparr>ref_APIGroup = ''rbac.authorization.k8s.io'', ref_Kind = ''Role'',
                         ref_Name = ''devspace-tiller''\<rparr>\<rparr>,
       LogStopWait]"
  have install: "ensureTiller_install cluster0 cfg0 tillerSA0 tillerOptions0 [] = (None, ?T)"
    by (simp add: ensureTiller_install_def ensureRoleBinding_def cluster0_def cfg0_def
        tillerSA0_def Let_def APIGroupAll_def ResourceAll_def ServiceAccountKind_def
        tillerServiceAccountName_def tillerRoleName_def defaultPolicyRules_def)
  from grant_pair_as_unit [OF roles bindings install]
  obtain role1 rb1 role2 rb2 where
    shape: "?T = [] @ LogStartWait ''Installing Tiller server''
                   # ServiceAccountsGet (sa_Namespace tillerSA0) (sa_Name tillerSA0)
                   # (case k_ServiceAccountsGet cluster0 ([] @ [LogStartWait ''Installing Tiller server''])
                             (sa_Namespace tillerSA0) (sa_Name tillerSA0) of
                        None \<Rightarrow> []
                      | Some err \<Rightarrow> [ServiceAccountsCreate (sa_Namespace tillerSA0) tillerSA0])
                   @ [RolesCreate (role_Namespace role1) role1,
                      RoleBindingsCreate (role_Namespace role1) rb1,
                      InstallerInstall tillerOptions0,
                      RolesCreate (role_Namespace role2) role2,
                      RoleBindingsCreate (role_Namespace role2) rb2,
                      LogStopWait]"
    and del: "\<And>k2 tr2. snd (DeleteTiller k2 cfg0 tr2) =
              tr2 @ [DeploymentsDelete (TillerNamespace cfg0) tillerDeploymentName,
                     ServiceAccountsDelete (TillerNamespace cfg0) tillerServiceAccountName,
                     RolesDelete (role_Namespace role1) (role_Name role1),
                     RoleBindingsDelete (rb_Namespace rb1) (rb_Name rb1),
                     RolesDelete (role_Namespace role2) (role_Name role2),
                     RoleBindingsDelete (rb_Namespace rb2) (rb_Name rb2)]"
    by blast
  from shape sa have "role1 = \<lparr>role_Name = ''tiller-config-manager'', role_Namespace = ''kube-system'',
          role_Rules = [\<lparr>APIGroups = [''*'', ''extensions'', ''apps''],
                          Resources = [''configmaps''], Verbs = [''*'']\<rparr>]\<rparr>"
    and "rb1 = \<lparr>rb_Name = ''tiller-config-manager-binding'', rb_Namespace = ''kube-system'',
          rb_Subjects = [\<lparr>subj_Kind = ''ServiceAccount'', subj_Name = ''devspace-tiller'',
                          subj_Namespace = ''kube-system''\<rparr>],
          rb_RoleRef = \<lparr>ref_APIGroup = ''rbac.authorization.k8s.io'', ref_Kind = ''Role'',
                         ref_Name = ''tiller-config-manager''\<rparr>\<rparr>"
    and "role2 = \<lparr>role_Name = ''devspace-tiller'', role_Namespace = ''default'',
          role_Rules = [\<lparr>APIGroups = [''*'', ''extensions'', ''apps''],
                          Resources = [''*''], Verbs = [''*'']\<rparr>]\<rparr>"
    and "rb2 = \<lparr>rb_Name = ''devspace-tiller-binding'', rb_Namespace = ''default'',
          rb_Subjects = [\<lparr>subj_Kind = ''ServiceAccount'', subj_Name = ''devspace-tiller'',
                          subj_Namespace = ''kube-system''\<rparr>],
          rb_RoleRef = \<lparr>ref_APIGroup = ''rbac.authorization.k8s.io'', ref_Kind = ''Role'',
                         ref_Name = ''devspace-tiller''\<rparr>\<rparr>"
    by (auto simp: tillerSA0_def)
  with del [of roles_gone_cluster "[]"]
  have "snd (DeleteTiller roles_gone_cluster cfg0 []) =
      [DeploymentsDelete ''kube-system'' ''tiller-deploy'',
       ServiceAccountsDelete ''kube-system'' ''devspace-tiller'',
       RolesDelete ''kube-system'' ''tiller-config-manager'',
       RoleBindingsDelete ''kube-system'' ''tiller-config-manager-binding'',
       RolesDelete ''default'' ''devspace-tiller'',
       RoleBindingsDelete ''default'' ''devspace-tiller-binding'']"
    by (simp add: cfg0_def tillerDeploymentName_def tillerServiceAccountName_def)
  with install show ?thesis by simp
qed

subsection \<open>Teardown\<close>

text \<open>
  Claim C8. \<^verbatim>\<open>DeleteTiller\<close> requests all six deletions (the deployment, the service
  account, and the role and role binding of both grants) in this order whatever the
  outcome of each; it returns \<^verbatim>\<open>nil\<close> exactly when none of them failed, and otherwise
  one error whose message is the messages of exactly the failed deletions, in the order
  of the attempts, each followed by a line feed.
\<close>

theorem DeleteTiller_aggregate:
  "DeleteTiller k cfg tr =
     (let tns = TillerNamespace cfg;
          rns = ReleaseNamespace cfg;
          t1 = tr @ [DeploymentsDelete tns tillerDeploymentName];
          t2 = t1 @ [ServiceAccountsDelete tns tillerServiceAccountName];
          t3 = t2 @ [RolesDelete tns ''tiller-config-manager''];
          t4 = t3 @ [RoleBindingsDelete tns ''tiller-config-manager-binding''];
          t5 = t4 @ [RolesDelete rns tillerRoleName];
          t6 = t5 @ [RoleBindingsDelete rns (tillerRoleName @ ''-binding'')];
          failures = List.map_filter id
            [k_DeploymentsDelete k tr tns tillerDeploymentName,
             k_ServiceAccountsDelete k t1 tns tillerServiceAccountName,
             k_RolesDelete k t2 tns ''tiller-config-manager'',
             k_RoleBindingsDelete k t3 tns ''tiller-config-manager-binding'',
             k_RolesDelete k t4 rns tillerRoleName,
             k_RoleBindingsDelete k t5 rns (tillerRoleName @ ''-binding'')]
      in (if failures = [] then None
          else Some (concat (map (\<lambda>msg. msg @ newline) failures)), t6))"
proof -
  have split_first: "\<And>x y ys. List.map_filter id (x # y # ys)
      = List.map_filter id [x] @ List.map_filter id (y # ys :: error option list)"
    by (simp add: List.map_filter_def)
  have if_pair: "\<And>c a b (t :: trace). (if c then (a :: error option, t) else (b, t)) = (if c then a else b, t)"
    by simp
  have binding: "''tiller-config-manager'' @ ''-binding'' = ''tiller-config-manager-binding''"
    by simp
  show ?thesis
    unfolding DeleteTiller_def Let_def deleteRoles.simps split_first
    by (simp only: if_pair append_err_map_filter mergeErrors_concat merged_empty_iff
        append_Nil append_assoc nth_Cons_0 nth_Cons_Suc One_nat_def add_0 split_conv
        binding plus_nat.add_0 fst_conv snd_conv prod.case)
qed

theorem DeleteTiller_aggregate_witness:
  "DeleteTiller roles_gone_cluster cfg0 [] =
     (Some (''roles tiller-config-manager not found'' @ newline @
            ''roles devspace-tiller not found'' @ newline),
      [DeploymentsDelete ''kube-system'' ''tiller-deploy'',
       ServiceAccountsDelete ''kube-system'' ''devspace-tiller'',
       RolesDelete ''kube-system'' ''tiller-config-manager'',
       RoleBindingsDelete ''kube-system'' ''tiller-config-manager-binding'',
       RolesDelete ''default'' ''devspace-tiller'',
       RoleBindingsDelete ''default'' ''devspace-tiller-binding''])"
  using DeleteTiller_aggregate [of roles_gone_cluster cfg0 "[]"]
  by (simp add: roles_gone_cluster_def cluster0_def cfg0_def tillerDeploymentName_def
      tillerServiceAccountName_def tillerRoleName_def List.map_filter_simps newline_def Let_def)

section \<open>The release reconciler: results\<close>

subsection \<open>Substrings\<close>

lemma HasPrefix_iff: "HasPrefix s p \<longleftrightarrow> (\<exists>q. s = p @ q)"
  by (induction s p rule: HasPrefix.induct) auto

lemma Contains_iff: "Contains s substr \<longleftrightarrow> (\<exists>p q. s = p @ substr @ q)"
proof (induction s)
  case Nil
  then show ?case by auto
next
  case (Cons c cs)
  show ?case
  proof
    assume "Contains (c # cs) substr"
    then consider "HasPrefix (c # cs) substr" | "Contains cs substr" by auto
    then show "\<exists>p q. c # cs = p @ substr @ q"
    proof cases
      case 1
      then obtain q where "c # cs = substr @ q" by (auto simp: HasPrefix_iff)
      then have "c # cs = [] @ substr @ q" by simp
      then show ?thesis by blast
    next
      case 2
      with Cons.IH obtain p q where "cs = p @ substr @ q" by auto
      then have "c # cs = (c # p) @ substr @ q" by simp
      then show ?thesis by blast
    qed
  next
    assume "\<exists>p q. c # cs = p @ substr @ q"
    then obtain p q where pq: "c # cs = p @ substr @ q" by auto
    show "Contains (c # cs) substr"
    proof (cases p)
      case Nil
      with pq have "HasPrefix (c # cs) substr" by (auto simp: HasPrefix_iff)
      then show ?thesis by simp
    next
      case (Cons a p')
      with pq have "cs = p' @ substr @ q" by simp
      with Cons.IH have "Contains cs substr" by blast
      then show ?thesis by simp
    qed
  qed
qed

subsection \<open>Existence of a release\<close>

text \<open>
  Claim C5. \<^verbatim>\<open>ReleaseExists\<close> issues one history query for the release with the
  result cap 1. When the query succeeds the result is \<^verbatim>\<open>(true, nil)\<close>; when it fails
  with an error whose message contains the release-not-found message for this name the
  result is \<^verbatim>\<open>(false, nil)\<close>; when it fails with any other error the result is
  \<^verbatim>\<open>false\<close> together with that error, unchanged.
\<close>

theorem ReleaseExists_cases:
  "snd (ReleaseExists h w releaseName tr) = tr @ [ReleaseHistory releaseName 1]
   \<and> (c_ReleaseHistory (Client w) tr releaseName 1 = None
        \<longrightarrow> fst (ReleaseExists h w releaseName tr) = (True, None))
   \<and> (\<forall>msg. c_ReleaseHistory (Client w) tr releaseName 1 = Some msg
          \<and> (\<exists>p q. msg = p @ h_ErrReleaseNotFound h releaseName @ q)
        \<longrightarrow> fst (ReleaseExists h w releaseName tr) = (False, None))
   \<and> (\<forall>msg. c_ReleaseHistory (Client w) tr releaseName 1 = Some msg
          \<and> \<not> (\<exists>p q. msg = p @ h_ErrReleaseNotFound h releaseName @ q)
        \<longrightarrow> fst (ReleaseExists h w releaseName tr) = (False, Some msg))"
  by (auto simp: ReleaseExists_def Let_def Contains_iff split: option.splits)

theorem ReleaseExists_cases_witness:
  "ReleaseExists host0 wrapper0 ''web'' [] = ((True, None), [ReleaseHistory ''web'' 1])
   \<and> ReleaseExists host0 wrapper0 ''api'' [] = ((False, None), [ReleaseHistory ''api'' 1])
   \<and> ReleaseExists host0 wrapper0 ''db'' [] =
        ((False, Some ''transport is closing''), [ReleaseHistory ''db'' 1])"
proof -
  have web: "c_ReleaseHistory (Client wrapper0) [] ''web'' 1 = None"
    by (simp add: wrapper0_def helm0_def)
  have api: "c_ReleaseHistory (Client wrapper0) [] ''api'' 1
      = Some (''rpc error: code = Unknown desc = '' @ h_ErrReleaseNotFound host0 ''api'' @ [])"
    by (simp add: wrapper0_def helm0_def host0_def)
  have db: "c_ReleaseHistory (Client wrapper0) [] ''db'' 1 = Some ''transport is closing''"
    by (simp add: wrapper0_def helm0_def)
  have db_other: "\<not> (\<exists>p q. ''transport is closing'' = p @ h_ErrReleaseNotFound host0 ''db'' @ q)"
  proof -
    have "\<not> Contains ''transport is closing'' (h_ErrReleaseNotFound host0 ''db'')"
      by (simp add: host0_def ErrReleaseNotFound0_def)
    then show ?thesis by (simp add: Contains_iff)
  qed
  from ReleaseExists_cases [of host0 wrapper0 "''web''" "[]"] web
  have 1: "ReleaseExists host0 wrapper0 ''web'' [] = ((True, None), [ReleaseHistory ''web'' 1])"
    by (simp add: prod_eq_iff)
  from ReleaseExists_cases [of host0 wrapper0 "''api''" "[]"] api
  have 2: "ReleaseExists host0 wrapper0 ''api'' [] = ((False, None), [ReleaseHistory ''api'' 1])"
    by (metis append_Nil prod.collapse)
  from ReleaseExists_cases [of host0 wrapper0 "''db''" "[]"] db db_other
  have 3: "ReleaseExists host0 wrapper0 ''db'' [] =
        ((False, Some ''transport is closing''), [ReleaseHistory ''db'' 1])"
    by (metis append_Nil prod.collapse)
  from 1 2 3 show ?thesis by blast
qed


subsection \<open>Traces only grow\<close>

lemma InstallChartByPath_load_trace:
  "\<exists>evs. snd (InstallChartByPath_load h chartPath tr) = tr @ evs"
  by (auto simp: InstallChartByPath_load_def Let_def split: sum.splits option.splits)

lemma ReleaseExists_trace:
  "snd (ReleaseExists h w releaseName tr) = tr @ [ReleaseHistory releaseName 1]"
  by (auto simp: ReleaseExists_def Let_def split: option.splits)

lemma InstallChartByPath_trace:
  "\<exists>evs. snd (InstallChartByPath h w releaseName releaseNamespace chartPath values tr) = tr @ evs"
proof -
  obtain r tr1 where load: "InstallChartByPath_load h chartPath tr = (r, tr1)"
    by (cases "InstallChartByPath_load h chartPath tr")
  from InstallChartByPath_load_trace [of h chartPath tr] load
  obtain evs1 where tr1: "tr1 = tr @ evs1" by auto
  obtain b e tr2 where ex: "ReleaseExists h w releaseName tr1 = ((b, e), tr2)"
    by (cases "ReleaseExists h w releaseName tr1") auto
  from ReleaseExists_trace [of h w releaseName tr1] ex
  have tr2: "tr2 = tr @ evs1 @ [ReleaseHistory releaseName 1]" by (simp add: tr1)
  show ?thesis
    using load ex tr1 tr2
    by (auto simp: InstallChartByPath_def Let_def split: sum.splits option.splits)
qed

subsection \<open>Install or upgrade\<close>

text \<open>
  Claim C6. Once the chart is loaded, \<^verbatim>\<open>InstallChartByPath\<close> asks \<^verbatim>\<open>ReleaseExists\<close>
  (one history query) before it changes anything. When the release exists it issues
  exactly one \<^verbatim>\<open>UpdateRelease\<close> with reuse of the previous values off, waiting on and
  the timeout of 600 seconds, and no install; when it does not exist it issues exactly
  one \<^verbatim>\<open>InstallReleaseFromChart\<close> with reuse of the name off and the same wait and
  timeout. A \<^verbatim>\<open>nil\<close> set of values is sent as the empty payload; other values are sent
  as \<^verbatim>\<open>yaml.Marshal\<close> serializes them.
\<close>

theorem InstallChartByPath_upsert:
  assumes "InstallChartByPath_load h chartPath tr = (Inr chart, tr1)"
    and "ReleaseExists h w releaseName tr1 = ((releaseExists, None), tr2)"
    and "values = None \<and> payload = [] \<or> (\<exists>v. values = Some v \<and> h_Marshal h v = Inr payload)"
  shows "tr2 = tr1 @ [ReleaseHistory releaseName 1]
    \<and> InstallChartByPath h w releaseName releaseNamespace chartPath values tr =
      (if releaseExists then
         (c_UpdateRelease (Client w) tr2 releaseName chartPath
            \<lparr>UpgradeTimeout = 600, UpdateValueOverrides = payload,
             ReuseValues = False, UpgradeWait = True\<rparr>,
          tr2 @ [UpdateRelease releaseName chartPath
                   \<lparr>UpgradeTimeout = 600, UpdateValueOverrides = payload,
                    ReuseValues = False, UpgradeWait = True\<rparr>])
       else
         (c_InstallReleaseFromChart (Client w) tr2 chart releaseNamespace
            \<lparr>InstallTimeout = 600, ValueOverrides = payload, ReleaseName = releaseName,
             InstallReuseName = False, InstallWait = True\<rparr>,
          tr2 @ [InstallReleaseFromChart chart releaseNamespace
                   \<lparr>InstallTimeout = 600, ValueOverrides = payload, ReleaseName = releaseName,
                    InstallReuseName = False, InstallWait = True\<rparr>]))"
proof -
  from ReleaseExists_trace [of h w releaseName tr1] assms(2)
  have tr2: "tr2 = tr1 @ [ReleaseHistory releaseName 1]" by simp
  have m: "(case values of None \<Rightarrow> Inr [] | Some v \<Rightarrow> h_Marshal h v) = Inr payload"
    using assms(3) by auto
  show ?thesis
    using tr2 by (simp add: InstallChartByPath_def assms(1) assms(2) m Let_def)
qed

theorem InstallChartByPath_upsert_witness:
  "InstallChartByPath host0 wrapper0 ''web'' ''default'' ''./chart'' None [] =
     (Inr \<lparr>rel_Name = ''web'', rel_Namespace = ''default'', rel_Version = 2\<rparr>,
      [ChartLoad ''./chart'', ReleaseHistory ''web'' 1,
       UpdateRelease ''web'' ''./chart''
         \<lparr>UpgradeTimeout = 600, UpdateValueOverrides = [], ReuseValues = False,
          UpgradeWait = True\<rparr>])
   \<and> InstallChartByPath host0 wrapper0 ''api'' ''default'' ''./chart''
        (Some [(YScalar ''replicas'', YScalar ''2'')]) [] =
     (Inr \<lparr>rel_Name = ''api'', rel_Namespace = ''default'', rel_Version = 1\<rparr>,
      [ChartLoad ''./chart'', ReleaseHistory ''api'' 1,
       InstallReleaseFromChart (Chart ''web'' []) ''default''
         \<lparr>InstallTimeout = 600, ValueOverrides = ''replicas: 2'', ReleaseName = ''api'',
          InstallReuseName = False, InstallWait = True\<rparr>])"
proof -
  have load: "InstallChartByPath_load host0 ''./chart'' [] = (Inr (Chart ''web'' []), [ChartLoad ''./chart''])"
    by (simp add: InstallChartByPath_load_def host0_def)
  have web: "ReleaseExists host0 wrapper0 ''web'' [ChartLoad ''./chart'']
      = ((True, None), [ChartLoad ''./chart'', ReleaseHistory ''web'' 1])"
    by (simp add: ReleaseExists_def wrapper0_def helm0_def)
  have api: "ReleaseExists host0 wrapper0 ''api'' [ChartLoad ''./chart'']
      = ((False, None), [ChartLoad ''./chart'', ReleaseHistory ''api'' 1])"
    by (simp add: ReleaseExists_def wrapper0_def helm0_def host0_def ErrReleaseNotFound0_def)
  have nil: "(None :: (yaml \<times> yaml) list option) = None \<and> ([] :: string) = []
      \<or> (\<exists>v. None = Some v \<and> h_Marshal host0 v = Inr [])"
    by simp
  have some: "Some [(YScalar ''replicas'', YScalar ''2'')] = None \<and> ''replicas: 2'' = []
      \<or> (\<exists>v. Some [(YScalar ''replicas'', YScalar ''2'')] = Some v
             \<and> h_Marshal host0 v = Inr ''replicas: 2'')"
    by (simp add: host0_def)
  from InstallChartByPath_upsert [OF load web nil, of "''default''"]
  have 1: "InstallChartByPath host0 wrapper0 ''web'' ''default'' ''./chart'' None [] =
     (Inr \<lparr>rel_Name = ''web'', rel_Namespace = ''default'', rel_Version = 2\<rparr>,
      [ChartLoad ''./chart'', ReleaseHistory ''web'' 1,
       UpdateRelease ''web'' ''./chart''
         \<lparr>UpgradeTimeout = 600, UpdateValueOverrides = [], ReuseValues = False,
          UpgradeWait = True\<rparr>])"
    by (simp add: wrapper0_def helm0_def release0_def)
  from InstallChartByPath_upsert [OF load api some, of "''default''"]
  have 2: "InstallChartByPath host0 wrapper0 ''api'' ''default'' ''./chart''
        (Some [(YScalar ''replicas'', YScalar ''2'')]) [] =
     (Inr \<lparr>rel_Name = ''api'', rel_Namespace = ''default'', rel_Version = 1\<rparr>,
      [ChartLoad ''./chart'', ReleaseHistory ''api'' 1,
       InstallReleaseFromChart (Chart ''web'' []) ''default''
         \<lparr>InstallTimeout = 600, ValueOverrides = ''replicas: 2'', ReleaseName = ''api'',
          InstallReuseName = False, InstallWait = True\<rparr>])"
    by (simp add: wrapper0_def helm0_def release0_def)
  from 1 2 show ?thesis by blast
qed

subsection \<open>The version constraint of a chart installed by name\<close>

text \<open>
  Claim C7. \<^verbatim>\<open>InstallChartByName\<close> hands the chart downloader the constraint
  \<open>>0.0.0-0\<close> (every version from 0.0.0 on) when the given constraint is the empty
  string, and the given constraint unchanged otherwise: the download request it issues
  right after creating the archive directory carries that constraint.
\<close>

theorem InstallChartByName_constraint:
  "InstallChartByName_version chartVersion =
     (if chartVersion = [] then ''>0.0.0-0'' else chartVersion)
   \<and> (\<exists>evs. snd (InstallChartByName h w releaseName releaseNamespace chartName chartVersion values tr)
         = tr @ [MkdirAll (Archive (Settings_Home w)),
                 DownloadTo chartName
                   (if chartVersion = [] then ''>0.0.0-0'' else chartVersion)
                   (Archive (Settings_Home w))] @ evs)"
proof -
  let ?v = "InstallChartByName_version chartVersion"
  let ?a = "Archive (Settings_Home w)"
  have v: "?v = (if chartVersion = [] then ''>0.0.0-0'' else chartVersion)"
    by (simp add: InstallChartByName_version_def)
  have "\<exists>evs. snd (InstallChartByName h w releaseName releaseNamespace chartName chartVersion values tr)
         = tr @ [MkdirAll ?a, DownloadTo chartName ?v ?a] @ evs"
  proof (cases "h_DownloadTo h (tr @ [MkdirAll ?a]) chartName ?v ?a")
    case (Inl err)
    then show ?thesis by (simp add: InstallChartByName_def Let_def)
  next
    case (Inr chartPath)
    from InstallChartByPath_trace
      [of h w releaseName releaseNamespace chartPath "values" "tr @ [MkdirAll ?a, DownloadTo chartName ?v ?a]"]
    obtain evs where "snd (InstallChartByPath h w releaseName releaseNamespace chartPath values
        (tr @ [MkdirAll ?a, DownloadTo chartName ?v ?a])) = (tr @ [MkdirAll ?a, DownloadTo chartName ?v ?a]) @ evs"
      by blast
    with Inr show ?thesis by (simp add: InstallChartByName_def Let_def)
  qed
  with v show ?thesis by simp
qed

section \<open>The repository index syncer: results\<close>

subsection \<open>One step of the join\<close>

lemma downloads_append: "downloads (xs @ ys) = downloads xs @ downloads ys"
  by (induction xs rule: downloads.induct) simp_all

lemma logged_append: "logged (xs @ ys) = logged xs @ logged ys"
  by (induction xs rule: logged.induct) simp_all

lemma failed_append: "failed h pre (xs @ ys) = failed h pre xs @ failed h (pre @ xs) ys"
  by (induction h pre xs rule: failed.induct) (simp_all split: option.splits)

lemma to_download_append: "to_download (xs @ ys) = to_download xs @ to_download ys"
  by (induction xs rule: to_download.induct) simp_all

lemma to_log_append: "to_log (xs @ ys) = to_log xs @ to_log ys"
  by (induction xs rule: to_log.induct) simp_all

lemma caller_step_Next:
  assumes "caller_step (c, wg, gs, tr) = Next (c', wg', gs', tr')"
    and "counted (c, wg, gs, tr)"
  shows "counted (c', wg', gs', tr') \<and> (\<exists>ev. tr' = tr @ [ev]
      \<and> downloads [ev] = [] \<and> logged [ev] = [] \<and> failed h tr [ev] = [] \<and> ev \<noteq> WgDone
      \<and> ev \<noteq> WgWait
      \<and> mset (to_start c) + mset (to_download gs) = mset (to_start c') + mset (to_download gs')
      \<and> to_log gs' = to_log gs
      \<and> length (to_start c) + length gs = length (to_start c') + length gs')"
  using assms
  by (cases "(c, wg, gs, tr)" rule: caller_step.cases) (auto simp: to_download_append to_log_append)

lemma goroutine_step_Next:
  assumes step: "goroutine_step h home j (c, wg, gs, tr) = Next (c', wg', gs', tr')"
    and cnt: "counted (c, wg, gs, tr)"
    and j: "j < length gs"
  shows "counted (c', wg', gs', tr') \<and> c' = c \<and> (\<exists>ev. tr' = tr @ [ev] \<and> ev \<noteq> WgWait
      \<and> mset (to_download gs) = mset (to_download gs') + mset (downloads [ev])
      \<and> mset (to_log gs) + mset (failed h tr [ev]) = mset (to_log gs') + mset (logged [ev])
      \<and> length gs = length gs' + length (filter (\<lambda>e. e = WgDone) [ev]))"
proof -
  define pre where "pre = take j gs"
  define post where "post = drop (Suc j) gs"
  define g where "g = gs ! j"
  have gs: "gs = pre @ g # post"
    unfolding pre_def post_def g_def using j by (rule id_take_nth_drop)
  have pre: "length pre = j"
    unfolding pre_def using j by simp
  have nth: "gs ! j = g"
    by (simp add: g_def)
  have upd: "\<And>x. gs[j := x] = pre @ x # post"
    unfolding pre_def post_def using j by (rule upd_conv_take_nth_drop)
  have del: "take j gs @ drop (Suc j) gs = pre @ post"
    by (simp add: pre_def post_def)
  show ?thesis
  proof (cases "gs ! j")
    case (G_download re)
    with gs nth have g: "gs = pre @ G_download re # post" by simp
    show ?thesis
    proof (cases "h_DownloadIndexFile h tr re home")
      case None
      with step G_download have "c' = c" "wg' = wg" "gs' = pre @ G_done # post"
        "tr' = tr @ [DownloadIndexFile re home]"
        by (simp_all add: upd)
      with cnt g None show ?thesis
        by (cases c) (simp_all add: to_download_append to_log_append)
    next
      case (Some err)
      with step G_download have "c' = c" "wg' = wg" "gs' = pre @ G_log err # post"
        "tr' = tr @ [DownloadIndexFile re home]"
        by (simp_all add: upd)
      with cnt g Some show ?thesis
        by (cases c) (simp_all add: to_download_append to_log_append)
    qed
  next
    case (G_log err)
    with gs nth have g: "gs = pre @ G_log err # post" by simp
    from step G_log have "c' = c" "wg' = wg" "gs' = pre @ G_done # post"
        "tr' = tr @ [LogWithError err ''Unable to download repo index'']"
      by (simp_all add: upd)
    with cnt g show ?thesis
      by (cases c) (simp_all add: to_download_append to_log_append)
  next
    case G_done
    with gs nth have g: "gs = pre @ G_done # post" by simp
    from step G_done have "c' = c" "wg' = wg - 1" "gs' = pre @ post" "tr' = tr @ [WgDone]"
      by (simp_all add: del split: if_splits)
    with cnt g show ?thesis
      by (cases c) (simp_all add: to_download_append to_log_append)
  qed
qed


text \<open>
  A step of the machine is a step of the caller, which then could take one, or of a live
  goroutine; the machine is stuck only when the caller waits and no goroutine is left.
\<close>

lemma join_step_thread:
  "join_step h home (c, wg, gs, tr) = caller_step (c, wg, gs, tr) \<and> caller_runnable c wg
   \<or> (\<exists>j < length gs. join_step h home (c, wg, gs, tr) = goroutine_step h home j (c, wg, gs, tr))
   \<or> join_step h home (c, wg, gs, tr) = Stuck \<and> \<not> caller_runnable c wg \<and> gs = []"
proof (cases "caller_runnable c wg")
  case True
  define x where "x = h_Sched h tr (Suc (length gs)) mod Suc (length gs)"
  have x: "x < Suc (length gs)"
    unfolding x_def by (rule mod_less_divisor) simp
  show ?thesis
  proof (cases "x = 0")
    case True
    with \<open>caller_runnable c wg\<close> show ?thesis
      by (simp add: Let_def x_def del: goroutine_step.simps caller_step.simps)
  next
    case False
    with x have "x - 1 < length gs" by linarith
    moreover from False \<open>caller_runnable c wg\<close>
    have "join_step h home (c, wg, gs, tr) = goroutine_step h home (x - 1) (c, wg, gs, tr)"
      by (simp add: Let_def x_def del: goroutine_step.simps caller_step.simps)
    ultimately show ?thesis by blast
  qed
next
  case False
  show ?thesis
  proof (cases "gs = []")
    case True
    with False show ?thesis by simp
  next
    case nonempty: False
    then have "h_Sched h tr (length gs) mod length gs < length gs" by simp
    moreover from False nonempty
    have "join_step h home (c, wg, gs, tr) =
        goroutine_step h home (h_Sched h tr (length gs) mod length gs) (c, wg, gs, tr)"
      by (simp del: goroutine_step.simps caller_step.simps)
    ultimately show ?thesis by blast
  qed
qed

lemma counted_runnable:
  assumes "counted (c, wg, gs, tr)" and "\<not> caller_runnable c wg"
  shows "gs \<noteq> []"
  using assms by (cases "(c, wg)" rule: caller_runnable.cases) auto

lemma goroutine_step_not_Returned: "goroutine_step h home j s \<noteq> Returned tr'"
  by (cases s) (auto split: goroutine.splits option.splits)

lemma goroutine_step_not_Stuck:
  assumes "counted (c, wg, gs, tr)" and "j < length gs"
  shows "goroutine_step h home j (c, wg, gs, tr) \<noteq> Stuck"
proof -
  from assms(2) have "1 \<le> int (length gs)" by linarith
  with assms(1) have "1 \<le> wg"
    by (cases c) (simp_all del: of_nat_le_iff)
  then show ?thesis
    by (auto split: goroutine.splits option.splits)
qed

declare join_step.simps [simp del] goroutine_step.simps [simp del] updateRepos_join.simps [simp del]

lemma join_step_not_Stuck:
  assumes "counted (c, wg, gs, tr)"
  shows "join_step h home (c, wg, gs, tr) \<noteq> Stuck"
proof -
  from join_step_thread [of h home c wg gs tr]
  consider "join_step h home (c, wg, gs, tr) = caller_step (c, wg, gs, tr)"
    | j where "j < length gs"
        "join_step h home (c, wg, gs, tr) = goroutine_step h home j (c, wg, gs, tr)"
    | "\<not> caller_runnable c wg" "gs = []"
    by blast
  then show ?thesis
  proof cases
    case 1
    then show ?thesis
      by (cases "(c, wg, gs, tr)" rule: caller_step.cases) simp_all
  next
    case 2
    with goroutine_step_not_Stuck [OF assms, of j h home] show ?thesis by simp
  next
    case 3
    with counted_runnable [OF assms] show ?thesis by simp
  qed
qed

lemma join_step_Returned:
  assumes ret: "join_step h home (c, wg, gs, tr) = Returned tr'"
    and cnt: "counted (c, wg, gs, tr)"
  shows "c = AtAdd [] \<and> gs = [] \<and> tr' = tr @ [WgWait]"
proof -
  from join_step_thread [of h home c wg gs tr]
  consider "join_step h home (c, wg, gs, tr) = caller_step (c, wg, gs, tr)" "caller_runnable c wg"
    | j where "join_step h home (c, wg, gs, tr) = goroutine_step h home j (c, wg, gs, tr)"
    | "join_step h home (c, wg, gs, tr) = Stuck"
    by blast
  then show ?thesis
  proof cases
    case 1
    with ret have "caller_step (c, wg, gs, tr) = Returned tr'" by simp
    then have "c = AtAdd [] \<and> tr' = tr @ [WgWait]"
      by (cases "(c, wg, gs, tr)" rule: caller_step.cases) simp_all
    with 1(2) cnt show ?thesis by simp
  next
    case 2
    with ret goroutine_step_not_Returned [of h home j "(c, wg, gs, tr)" tr'] show ?thesis
      by simp
  next
    case 3
    with ret show ?thesis by simp
  qed
qed

lemma join_step_Next:
  assumes step: "join_step h home (c, wg, gs, tr) = Next (c', wg', gs', tr')"
    and cnt: "counted (c, wg, gs, tr)"
  shows "counted (c', wg', gs', tr') \<and> (\<exists>ev. tr' = tr @ [ev] \<and> ev \<noteq> WgWait
      \<and> mset (to_start c) + mset (to_download gs)
          = mset (to_start c') + mset (to_download gs') + mset (downloads [ev])
      \<and> mset (to_log gs) + mset (failed h tr [ev]) = mset (to_log gs') + mset (logged [ev])
      \<and> length (to_start c) + length gs
          = length (to_start c') + length gs' + length (filter (\<lambda>e. e = WgDone) [ev]))"
proof -
  from join_step_thread [of h home c wg gs tr] step
  consider "caller_step (c, wg, gs, tr) = Next (c', wg', gs', tr')"
    | j where "j < length gs" "goroutine_step h home j (c, wg, gs, tr) = Next (c', wg', gs', tr')"
    by auto
  then show ?thesis
  proof cases
    case 1
    from caller_step_Next [OF 1 cnt, of h]
    obtain ev where "counted (c', wg', gs', tr')" "tr' = tr @ [ev]"
      "downloads [ev] = []" "logged [ev] = []" "failed h tr [ev] = []" "ev \<noteq> WgDone"
      "ev \<noteq> WgWait"
      "mset (to_start c) + mset (to_download gs) = mset (to_start c') + mset (to_download gs')"
      "to_log gs' = to_log gs"
      "length (to_start c) + length gs = length (to_start c') + length gs'"
      by blast
    then show ?thesis by simp
  next
    case 2
    from goroutine_step_Next [OF 2(2) cnt 2(1)]
    obtain ev where "counted (c', wg', gs', tr')" "c' = c" "tr' = tr @ [ev]" "ev \<noteq> WgWait"
      "mset (to_download gs) = mset (to_download gs') + mset (downloads [ev])"
      "mset (to_log gs) + mset (failed h tr [ev]) = mset (to_log gs') + mset (logged [ev])"
      "length gs = length gs' + length (filter (\<lambda>e. e = WgDone) [ev])"
      by blast
    then show ?thesis by simp
  qed
qed

subsection \<open>Every run of the join returns\<close>

text \<open>
  From a state in which the counter counts the goroutines, under every scheduler and
  whatever the downloads answer, \<^verbatim>\<open>wg.Wait()\<close> returns. Before it does, every
  repository still to be started or downloaded has had its download, every goroutine has
  run its \<^verbatim>\<open>wg.Done()\<close>, and the errors logged are those the goroutines had still to log
  and those of the downloads that failed on the way.
\<close>

lemma updateRepos_join_returns:
  assumes "counted s" and "s = (c, wg, gs, tr)"
  shows "\<exists>evs. updateRepos_join h home s = Some (tr @ evs @ [WgWait])
      \<and> mset (downloads evs) = mset (to_start c) + mset (to_download gs)
      \<and> mset (logged evs) = mset (to_log gs) + mset (failed h tr evs)
      \<and> length (filter (\<lambda>e. e = WgDone) evs) = length (to_start c) + length gs
      \<and> WgWait \<notin> set evs"
  using assms
proof (induction h home s arbitrary: c wg gs tr rule: updateRepos_join.induct)
  case (1 h home s)
  note cnt = \<open>counted s\<close> and s = \<open>s = (c, wg, gs, tr)\<close>
  show ?case
  proof (cases "join_step h home s")
    case Stuck
    with join_step_not_Stuck [of c wg gs tr h home] cnt s show ?thesis by simp
  next
    case (Returned tr')
    with join_step_Returned [of h home c wg gs tr tr'] cnt s
    have "c = AtAdd []" "gs = []" "tr' = tr @ [WgWait]" by simp_all
    moreover from Returned have "updateRepos_join h home s = Some tr'"
      by (subst updateRepos_join.simps) simp
    ultimately show ?thesis by simp
  next
    case (Next s')
    obtain c' wg' gs' tr' where s': "s' = (c', wg', gs', tr')" by (cases s')
    from join_step_Next [of h home c wg gs tr c' wg' gs' tr'] Next cnt s s'
    obtain ev where cnt': "counted s'" and tr': "tr' = tr @ [ev]" and notwait: "ev \<noteq> WgWait"
      and dl: "mset (to_start c) + mset (to_download gs)
          = mset (to_start c') + mset (to_download gs') + mset (downloads [ev])"
      and lg: "mset (to_log gs) + mset (failed h tr [ev]) = mset (to_log gs') + mset (logged [ev])"
      and dn: "length (to_start c) + length gs
          = length (to_start c') + length gs' + length (filter (\<lambda>e. e = WgDone) [ev])"
      by auto
    from "1.IH" [OF Next cnt' s']
    obtain evs where run: "updateRepos_join h home s' = Some (tr' @ evs @ [WgWait])"
      and dl': "mset (downloads evs) = mset (to_start c') + mset (to_download gs')"
      and lg': "mset (logged evs) = mset (to_log gs') + mset (failed h tr' evs)"
      and dn': "length (filter (\<lambda>e. e = WgDone) evs) = length (to_start c') + length gs'"
      and nw': "WgWait \<notin> set evs"
      by auto
    from Next run have "updateRepos_join h home s = Some (tr @ (ev # evs) @ [WgWait])"
      by (subst updateRepos_join.simps) (simp add: tr')
    moreover have "mset (downloads (ev # evs)) = mset (to_start c) + mset (to_download gs)"
      using downloads_append [of "[ev]" evs] dl dl' by simp
    moreover have "mset (logged (ev # evs)) = mset (to_log gs) + mset (failed h tr (ev # evs))"
      using logged_append [of "[ev]" evs] failed_append [of h tr "[ev]" evs] lg lg' tr'
      by (simp add: ac_simps)
    moreover have "length (filter (\<lambda>e. e = WgDone) (ev # evs)) = length (to_start c) + length gs"
      using dn dn' by simp
    moreover have "WgWait \<notin> set (ev # evs)"
      using notwait nw' by simp
    ultimately show ?thesis by blast
  qed
qed

subsection \<open>The first loop\<close>

lemma updateRepos_new_trace:
  "updateRepos_new h es acc tr = (r, tr') \<Longrightarrow> \<exists>k. tr' = tr @ map NewChartRepository (take k es)"
proof (induction es arbitrary: acc tr)
  case Nil
  then show ?case by simp
next
  case (Cons e es)
  show ?case
  proof (cases "h_NewChartRepository h tr e")
    case None
    with Cons.prems have "updateRepos_new h es (acc @ [e]) (tr @ [NewChartRepository e]) = (r, tr')"
      by simp
    from Cons.IH [OF this] obtain k where "tr' = (tr @ [NewChartRepository e]) @ map NewChartRepository (take k es)"
      by blast
    then have "tr' = tr @ map NewChartRepository (take (Suc k) (e # es))" by simp
    then show ?thesis by blast
  next
    case (Some msg)
    with Cons.prems have "tr' = tr @ map NewChartRepository (take 1 (e # es))" by auto
    then show ?thesis by blast
  qed
qed

lemma updateRepos_new_Inr:
  "updateRepos_new h es acc tr = (Inr repos, tr') \<Longrightarrow>
     repos = acc @ es \<and> tr' = tr @ map NewChartRepository es"
proof (induction es arbitrary: acc tr)
  case Nil
  then show ?case by simp
next
  case (Cons e es)
  show ?case
  proof (cases "h_NewChartRepository h tr e")
    case None
    with Cons.prems have "updateRepos_new h es (acc @ [e]) (tr @ [NewChartRepository e]) = (Inr repos, tr')"
      by simp
    from Cons.IH [OF this] show ?thesis by simp
  next
    case (Some msg)
    with Cons.prems show ?thesis by simp
  qed
qed

lemma updateRepos_new_Inl:
  "updateRepos_new h es acc tr = (Inl err, tr') \<Longrightarrow>
     \<exists>pre re. re \<in> set es \<and> h_NewChartRepository h pre re = Some err"
proof (induction es arbitrary: acc tr)
  case Nil
  then show ?case by simp
next
  case (Cons e es)
  show ?case
  proof (cases "h_NewChartRepository h tr e")
    case None
    with Cons.prems have "updateRepos_new h es (acc @ [e]) (tr @ [NewChartRepository e]) = (Inl err, tr')"
      by simp
    from Cons.IH [OF this] show ?thesis by auto
  next
    case (Some msg)
    with Cons.prems have "msg = err" by simp
    with Some show ?thesis by auto
  qed
qed

lemma updateRepos_new_ignores:
  "updateRepos_new (h\<lparr>h_DownloadIndexFile := d, h_Sched := sch\<rparr>) es acc tr = updateRepos_new h es acc tr"
  by (induction es arbitrary: acc tr) (auto split: option.splits)

lemma updateRepos_join_start:
  "\<exists>evs. updateRepos_join h home (AtAdd repos, 0, [], tr) = Some (tr @ evs @ [WgWait])
      \<and> mset (downloads evs) = mset repos
      \<and> mset (logged evs) = mset (failed h tr evs)
      \<and> length (filter (\<lambda>e. e = WgDone) evs) = length repos
      \<and> WgWait \<notin> set evs"
  using updateRepos_join_returns [of "(AtAdd repos, 0, [], tr)" "AtAdd repos" 0 "[]" tr h home]
  by simp

subsection \<open>\<^verbatim>\<open>updateRepos\<close>\<close>

text \<open>
  The registry file is read and parsed, with the two entries it lists, and
  \<^verbatim>\<open>updateRepos\<close> still returns an error: no chart repository can be built for the
  second entry.
\<close>

theorem updateRepos_registry_loaded_yet_error:
  "h_LoadRepositoriesFile broken_entry_host [] (RepositoryFile (Settings_Home wrapper0))
     = Inr [stable_entry, broken_entry]
   \<and> map_option fst (updateRepos broken_entry_host wrapper0 [])
     = Some (Some ''could not find protocol handler'')"
  by (simp add: updateRepos_def broken_entry_host_def host0_def stable_entry_def
      broken_entry_def Let_def)

text \<open>
  Claim C9, as the code has it. \<^verbatim>\<open>updateRepos\<close> returns under every scheduler, and what
  it returns is the same whatever the downloads answer and in whatever order the threads
  run. When it returns \<^verbatim>\<open>nil\<close>, the registry file was loaded; between the construction
  of the chart repositories and the return of \<^verbatim>\<open>wg.Wait()\<close>, which is the last event,
  the index of every entry was downloaded once, as many goroutines finished as there are
  entries, and the errors logged are exactly the errors of the downloads that failed.
  When it returns an error, nothing was started after the construction of the chart
  repositories, and either loading the registry file failed with that error or building
  the chart repository of one of the entries did.
\<close>

theorem updateRepos_outcome:
  "\<exists>r tr'. updateRepos h w tr = Some (r, tr')
     \<and> map_option fst (updateRepos (h\<lparr>h_DownloadIndexFile := d, h_Sched := sch\<rparr>) w tr) = Some r
     \<and> (r = None \<longrightarrow>
          (\<exists>allRepos evs.
             h_LoadRepositoriesFile h tr (RepositoryFile (Settings_Home w)) = Inr allRepos
           \<and> tr' = tr @ LoadRepositoriesFile (RepositoryFile (Settings_Home w))
                       # map NewChartRepository allRepos @ evs @ [WgWait]
           \<and> WgWait \<notin> set evs
           \<and> mset (downloads evs) = mset allRepos
           \<and> length (filter (\<lambda>e. e = WgDone) evs) = length allRepos
           \<and> mset (logged evs)
               = mset (failed h (tr @ LoadRepositoriesFile (RepositoryFile (Settings_Home w))
                                    # map NewChartRepository allRepos) evs)))
     \<and> (\<forall>err. r = Some err \<longrightarrow>
          (\<exists>es. tr' = tr @ LoadRepositoriesFile (RepositoryFile (Settings_Home w))
                          # map NewChartRepository es)
          \<and> (h_LoadRepositoriesFile h tr (RepositoryFile (Settings_Home w)) = Inl err
             \<or> (\<exists>allRepos pre re.
                   h_LoadRepositoriesFile h tr (RepositoryFile (Settings_Home w)) = Inr allRepos
                   \<and> re \<in> set allRepos \<and> h_NewChartRepository h pre re = Some err)))"
proof -
  let ?file = "RepositoryFile (Settings_Home w)"
  let ?tr1 = "tr @ [LoadRepositoriesFile ?file]"
  let ?h' = "h\<lparr>h_DownloadIndexFile := d, h_Sched := sch\<rparr>"
  show ?thesis
  proof (cases "h_LoadRepositoriesFile h tr ?file")
    case (Inl e)
    show ?thesis
    proof (rule exI [of _ "Some e"], rule exI [of _ ?tr1], intro conjI)
      show "updateRepos h w tr = Some (Some e, ?tr1)"
        using Inl by (simp add: updateRepos_def Let_def)
      show "map_option fst (updateRepos ?h' w tr) = Some (Some e)"
        using Inl by (simp add: updateRepos_def Let_def)
      show "Some e = None \<longrightarrow>
          (\<exists>allRepos evs.
             h_LoadRepositoriesFile h tr ?file = Inr allRepos
           \<and> ?tr1 = tr @ LoadRepositoriesFile ?file # map NewChartRepository allRepos @ evs @ [WgWait]
           \<and> WgWait \<notin> set evs
           \<and> mset (downloads evs) = mset allRepos
           \<and> length (filter (\<lambda>e. e = WgDone) evs) = length allRepos
           \<and> mset (logged evs)
               = mset (failed h (tr @ LoadRepositoriesFile ?file # map NewChartRepository allRepos) evs))"
        by simp
      have "?tr1 = tr @ LoadRepositoriesFile ?file # map NewChartRepository []"
        by simp
      then have "\<exists>es. ?tr1 = tr @ LoadRepositoriesFile ?file # map NewChartRepository es"
        by (rule exI)
      with Inl show "\<forall>err. Some e = Some err \<longrightarrow>
          (\<exists>es. ?tr1 = tr @ LoadRepositoriesFile ?file # map NewChartRepository es)
          \<and> (h_LoadRepositoriesFile h tr ?file = Inl err
             \<or> (\<exists>allRepos pre re.
                   h_LoadRepositoriesFile h tr ?file = Inr allRepos
                   \<and> re \<in> set allRepos \<and> h_NewChartRepository h pre re = Some err))"
        by simp
    qed
  next
    case loaded: (Inr allRepos)
    obtain r tr2 where new: "updateRepos_new h allRepos [] ?tr1 = (r, tr2)"
      by (cases "updateRepos_new h allRepos [] ?tr1")
    have new': "updateRepos_new ?h' allRepos [] ?tr1 = (r, tr2)"
      using new by (simp only: updateRepos_new_ignores)
    have loaded': "h_LoadRepositoriesFile ?h' tr ?file = Inr allRepos"
      using loaded by simp
    show ?thesis
    proof (cases r)
      case (Inl e)
      from updateRepos_new_Inl [OF new [unfolded Inl]]
      obtain pre re where bad: "re \<in> set allRepos" "h_NewChartRepository h pre re = Some e"
        by auto
      from updateRepos_new_trace [OF new]
      obtain k where "tr2 = ?tr1 @ map NewChartRepository (take k allRepos)" by blast
      then have "tr2 = tr @ LoadRepositoriesFile ?file # map NewChartRepository (take k allRepos)"
        by simp
      then have shape: "\<exists>es. tr2 = tr @ LoadRepositoriesFile ?file # map NewChartRepository es"
        by (rule exI)
      from bad loaded
      have cause: "\<exists>allRepos pre re.
                   h_LoadRepositoriesFile h tr ?file = Inr allRepos
                   \<and> re \<in> set allRepos \<and> h_NewChartRepository h pre re = Some e"
        by blast
      show ?thesis
      proof (rule exI [of _ "Some e"], rule exI [of _ tr2], intro conjI)
        show "updateRepos h w tr = Some (Some e, tr2)"
          by (simp add: updateRepos_def Let_def loaded new Inl)
        show "map_option fst (updateRepos ?h' w tr) = Some (Some e)"
          unfolding updateRepos_def Let_def
          by (simp add: loaded new' Inl del: updateRepos_new.simps)
        show "Some e = None \<longrightarrow>
          (\<exists>allRepos evs.
             h_LoadRepositoriesFile h tr ?file = Inr allRepos
           \<and> tr2 = tr @ LoadRepositoriesFile ?file # map NewChartRepository allRepos @ evs @ [WgWait]
           \<and> WgWait \<notin> set evs
           \<and> mset (downloads evs) = mset allRepos
           \<and> length (filter (\<lambda>e. e = WgDone) evs) = length allRepos
           \<and> mset (logged evs)
               = mset (failed h (tr @ LoadRepositoriesFile ?file # map NewChartRepository allRepos) evs))"
          by simp
        from shape cause show "\<forall>err. Some e = Some err \<longrightarrow>
          (\<exists>es. tr2 = tr @ LoadRepositoriesFile ?file # map NewChartRepository es)
          \<and> (h_LoadRepositoriesFile h tr ?file = Inl err
             \<or> (\<exists>allRepos pre re.
                   h_LoadRepositoriesFile h tr ?file = Inr allRepos
                   \<and> re \<in> set allRepos \<and> h_NewChartRepository h pre re = Some err))"
          by simp
      qed
    next
      case (Inr repos)
      from updateRepos_new_Inr [OF new [unfolded Inr]]
      have repos: "repos = allRepos" and tr2: "tr2 = ?tr1 @ map NewChartRepository allRepos"
        by simp_all
      have pre: "tr2 = tr @ LoadRepositoriesFile ?file # map NewChartRepository allRepos"
        by (simp add: tr2)
      from updateRepos_join_start [of h "Settings_Home w" allRepos tr2]
      obtain evs where run: "updateRepos_join h (Settings_Home w) (AtAdd allRepos, 0, [], tr2)
            = Some (tr2 @ evs @ [WgWait])"
        and facts: "mset (downloads evs) = mset allRepos" "mset (logged evs) = mset (failed h tr2 evs)"
          "length (filter (\<lambda>e. e = WgDone) evs) = length allRepos" "WgWait \<notin> set evs"
        by blast
      from updateRepos_join_start [of ?h' "Settings_Home w" allRepos tr2]
      obtain evs' where run': "updateRepos_join ?h' (Settings_Home w) (AtAdd allRepos, 0, [], tr2)
            = Some (tr2 @ evs' @ [WgWait])"
        by blast
      have shape: "tr2 @ evs @ [WgWait]
          = tr @ LoadRepositoriesFile ?file # map NewChartRepository allRepos @ evs @ [WgWait]"
        by (simp add: tr2)
      from loaded shape facts
      have ok: "\<exists>allRepos evsa.
             h_LoadRepositoriesFile h tr ?file = Inr allRepos
           \<and> tr2 @ evs @ [WgWait]
               = tr @ LoadRepositoriesFile ?file # map NewChartRepository allRepos @ evsa @ [WgWait]
           \<and> WgWait \<notin> set evsa
           \<and> mset (downloads evsa) = mset allRepos
           \<and> length (filter (\<lambda>e. e = WgDone) evsa) = length allRepos
           \<and> mset (logged evsa)
               = mset (failed h (tr @ LoadRepositoriesFile ?file # map NewChartRepository allRepos) evsa)"
        unfolding pre by blast
      show ?thesis
      proof (rule exI [of _ None], rule exI [of _ "tr2 @ evs @ [WgWait]"], intro conjI)
        show "updateRepos h w tr = Some (None, tr2 @ evs @ [WgWait])"
          by (simp add: updateRepos_def Let_def loaded new Inr repos run)
        show "map_option fst (updateRepos ?h' w tr) = Some None"
          unfolding updateRepos_def Let_def
          by (simp add: loaded new' Inr repos run' del: updateRepos_new.simps)
        from ok show "None = None \<longrightarrow>
          (\<exists>allRepos evsa.
             h_LoadRepositoriesFile h tr ?file = Inr allRepos
           \<and> tr2 @ evs @ [WgWait]
               = tr @ LoadRepositoriesFile ?file # map NewChartRepository allRepos @ evsa @ [WgWait]
           \<and> WgWait \<notin> set evsa
           \<and> mset (downloads evsa) = mset allRepos
           \<and> length (filter (\<lambda>e. e = WgDone) evsa) = length allRepos
           \<and> mset (logged evsa)
               = mset (failed h (tr @ LoadRepositoriesFile ?file # map NewChartRepository allRepos) evsa))"
          by (rule impI)
        show "\<forall>err. None = Some err \<longrightarrow>
          (\<exists>es. tr2 @ evs @ [WgWait] = tr @ LoadRepositoriesFile ?file # map NewChartRepository es)
          \<and> (h_LoadRepositoriesFile h tr ?file = Inl err
             \<or> (\<exists>allRepos pre re.
                   h_LoadRepositoriesFile h tr ?file = Inr allRepos
                   \<and> re \<in> set allRepos \<and> h_NewChartRepository h pre re = Some err))"
          by simp
      qed
    qed
  qed
qed

text \<open>
  A run on a registry of two repositories: the first index downloads, the second does
  not, and the goroutine of the first finishes between the failure of the second and its
  log entry.
\<close>

lemma mixed_run:
  "updateRepos mixed_host wrapper0 [] =
     Some (None,
       [LoadRepositoriesFile (RepositoryFile (Settings_Home wrapper0)),
        NewChartRepository stable_entry, NewChartRepository mirror_entry,
        WgAdd 1, GoFunc stable_entry,
        DownloadIndexFile stable_entry (Settings_Home wrapper0),
        WgAdd 1, GoFunc mirror_entry,
        DownloadIndexFile mirror_entry (Settings_Home wrapper0),
        WgDone,
        LogWithError ''no such host'' ''Unable to download repo index'', WgDone,
        WgWait])"
proof -
  have load: "\<And>tr path. h_LoadRepositoriesFile mixed_host tr path = Inr [stable_entry, mirror_entry]"
    by (simp add: mixed_host_def)
  have new: "\<And>tr. h_NewChartRepository mixed_host tr stable_entry = None"
    "\<And>tr. h_NewChartRepository mixed_host tr mirror_entry = None"
    by (simp_all add: mixed_host_def host0_def stable_entry_def mirror_entry_def)
  have dl: "\<And>tr home. h_DownloadIndexFile mixed_host tr stable_entry home = None"
    "\<And>tr home. h_DownloadIndexFile mixed_host tr mirror_entry home = Some ''no such host''"
    by (simp_all add: mixed_host_def stable_entry_def mirror_entry_def)
  have sched: "\<And>tr n. h_Sched mixed_host tr n = newest_first tr n"
    by (simp add: mixed_host_def host0_def)
  show ?thesis
    by (simp add: updateRepos_def Let_def load new dl sched newest_first_def
        updateRepos_join.simps join_step.simps goroutine_step.simps)
qed

theorem updateRepos_outcome_witness:
  "updateRepos mixed_host wrapper0 [] =
     Some (None,
       [LoadRepositoriesFile (RepositoryFile (Settings_Home wrapper0)),
        NewChartRepository stable_entry, NewChartRepository mirror_entry,
        WgAdd 1, GoFunc stable_entry,
        DownloadIndexFile stable_entry (Settings_Home wrapper0),
        WgAdd 1, GoFunc mirror_entry,
        DownloadIndexFile mirror_entry (Settings_Home wrapper0),
        WgDone,
        LogWithError ''no such host'' ''Unable to download repo index'', WgDone,
        WgWait])
   \<and> map_option fst (updateRepos (mixed_host\<lparr>h_DownloadIndexFile := (\<lambda>tr e home. None),
                                              h_Sched := (\<lambda>tr n. 0)\<rparr>) wrapper0 [])
       = Some None
   \<and> updateRepos broken_entry_host wrapper0 [] =
     Some (Some ''could not find protocol handler'',
       [LoadRepositoriesFile (RepositoryFile (Settings_Home wrapper0)),
        NewChartRepository stable_entry, NewChartRepository broken_entry])"
proof -
  have bad: "updateRepos broken_entry_host wrapper0 [] =
     Some (Some ''could not find protocol handler'',
       [LoadRepositoriesFile (RepositoryFile (Settings_Home wrapper0)),
        NewChartRepository stable_entry, NewChartRepository broken_entry])"
    by (simp add: updateRepos_def broken_entry_host_def host0_def stable_entry_def
        broken_entry_def Let_def)
  from updateRepos_outcome [where h = mixed_host and w = wrapper0 and tr = "[]"
      and d = "\<lambda>tr e home. None" and sch = "\<lambda>tr n. 0"] mixed_run
  have "map_option fst (updateRepos (mixed_host\<lparr>h_DownloadIndexFile := (\<lambda>tr e home. None),
                                              h_Sched := (\<lambda>tr n. 0)\<rparr>) wrapper0 [])
       = Some None"
    by auto
  with mixed_run bad show ?thesis by blast
qed

section \<open>The control-plane supervisor: results\<close>

subsection \<open>Waiting for the deployment\<close>

text \<open>
  The wait has no failing exit: on every cluster it ends with \<^verbatim>\<open>nil\<close>, and so does
  \<^verbatim>\<open>ensureTiller\<close> whenever the deployment is found and no upgrade is asked for.
\<close>

lemma ensureTiller_wait_never_fails: "fst (ensureTiller_wait k cfg tr) = None"
  by (simp add: ensureTiller_wait_def Let_def)

lemma ensureTiller_present_returns_nil:
  assumes "snd (k_DeploymentsGet k tr (TillerNamespace cfg) tillerDeploymentName) = None"
  shows "fst (ensureTiller k cfg False tr) = None"
  using assms by (simp add: ensureTiller_def Let_def ensureTiller_wait_never_fails)

text \<open>
  Claim C1. When the deployment never reports as many ready replicas as replicas,
  \<^verbatim>\<open>ensureTiller\<close> should give up with a timeout error once the bounded wait is over.
  Evaluated on a cluster whose tiller deployment exists, wants one replica and never has
  a ready one: \<^verbatim>\<open>ensureTiller\<close> polls 24 times, sleeping five seconds after each poll
  (two minutes in all), changes nothing in the cluster, then logs ``Tiller server started''
  and returns \<^verbatim>\<open>nil\<close>.
\<close>

theorem ensureTiller_never_ready:
  "ensureTiller stuck_cluster cfg0 False [] =
     (None,
      DeploymentsGet ''kube-system'' ''tiller-deploy'' #
      LogStartWait ''Waiting for Tiller server to start'' #
      concat (replicate 24 [DeploymentsGet ''kube-system'' ''tiller-deploy'', Sleep (5 * Second)]) @
      [LogStopWait, LogDone ''Tiller server started''])"
  by (simp add: ensureTiller_def ensureTiller_wait_def stuck_cluster_def cluster0_def cfg0_def
      tillerDeploymentName_def tillerServiceAccountName_def Second_def tillerCheckInterval_def
      eval_nat_numeral)

subsection \<open>The RPC health-check loop\<close>

text \<open>
  The loop returns only after a list call that succeeded, or when it is entered with a
  wait time that is not positive.
\<close>

lemma NewClient_health_partial:
  assumes "NewClient_health client w e tr = Some y"
  shows "(\<exists>t. c_ListReleases client t 1 = None) \<or> w \<le> 0"
proof (rule NewClient_health.raw_induct
    [where P = "\<lambda>c (w::int) e tr y. (\<exists>t. c_ListReleases c t 1 = None) \<or> w \<le> 0", OF _ assms])
  fix f :: "helm \<Rightarrow> int \<Rightarrow> error option \<Rightarrow> trace \<Rightarrow> (error option \<times> trace) option"
  fix c w e tr y
  assume IH: "\<And>c w e tr y. f c w e tr = Some y \<Longrightarrow> (\<exists>t. c_ListReleases c t 1 = None) \<or> w \<le> 0"
    and body: "(if 0 < w
      then let tillerError1 = c_ListReleases c tr 1; tr1 = tr @ [ListReleases 1]
           in if tillerError1 = None \<or> w < 0 then Some (tillerError1, tr1)
              else f c w tillerError1 tr1
      else Some (e, tr)) = Some y"
  show "(\<exists>t. c_ListReleases c t 1 = None) \<or> w \<le> 0"
  proof (cases "0 < w")
    case False
    then show ?thesis by simp
  next
    case True
    show ?thesis
    proof (cases "c_ListReleases c tr 1")
      case None
      then show ?thesis by blast
    next
      case (Some msg)
      with True body have "f c w (Some msg) (tr @ [ListReleases 1]) = Some y"
        by (simp add: Let_def)
      then show ?thesis by (rule IH)
    qed
  qed
qed

lemma NewClient_health_diverges:
  assumes "\<And>t. c_ListReleases client t 1 \<noteq> None" and "w > 0"
  shows "NewClient_health client w e tr = None"
proof (cases "NewClient_health client w e tr")
  case None
  then show ?thesis .
next
  case (Some y)
  from NewClient_health_partial [OF Some] assms(2)
  obtain t where "c_ListReleases client t 1 = None" by auto
  with assms(1) [of t] show ?thesis by simp
qed

lemma NewClient_health_returns:
  assumes "c_ListReleases client tr 1 = None" and "w > 0"
  shows "NewClient_health client w e tr = Some (None, tr @ [ListReleases 1])"
  using assms by (subst NewClient_health.simps) (simp add: Let_def)

text \<open>With a positive wait time the loop never leaves with an error.\<close>

lemma NewClient_health_result:
  assumes "NewClient_health client w e tr = Some (e', tr')" and "w > 0"
  shows "e' = None"
proof -
  have "w > 0 \<longrightarrow> fst (e', tr') = None"
  proof (rule NewClient_health.raw_induct
    [where P = "\<lambda>c (w::int) e tr y. w > 0 \<longrightarrow> fst y = None", OF _ assms(1)])
    fix f :: "helm \<Rightarrow> int \<Rightarrow> error option \<Rightarrow> trace \<Rightarrow> (error option \<times> trace) option"
    fix c w e tr y
    assume IH: "\<And>c w e tr y. f c w e tr = Some y \<Longrightarrow> w > 0 \<longrightarrow> fst y = None"
      and body: "(if 0 < w
        then let tillerError1 = c_ListReleases c tr 1; tr1 = tr @ [ListReleases 1]
             in if tillerError1 = None \<or> w < 0 then Some (tillerError1, tr1)
                else f c w tillerError1 tr1
        else Some (e, tr)) = Some y"
    show "w > 0 \<longrightarrow> fst y = None"
    proof
      assume w: "0 < w"
      show "fst y = None"
      proof (cases "c_ListReleases c tr 1")
        case None
        with w body show ?thesis by (auto simp: Let_def)
      next
        case (Some msg)
        with w body have "f c w (Some msg) (tr @ [ListReleases 1]) = Some y"
          by (simp add: Let_def)
        from IH [OF this] w show ?thesis by simp
      qed
    qed
  qed
  with assms(2) show ?thesis by simp
qed

text \<open>
  Claim C2. The health-check loop should end within its two minutes whatever the release
  server answers, and then surface the last error. Evaluated on a release server whose
  every list call fails: the loop does not return, from any trace.
\<close>

theorem NewClient_health_never_returns:
  "c_ListReleases unreachable_helm tr 1 = Some ''context deadline exceeded''
   \<and> NewClient_health unreachable_helm (2 * 60 * Second) None tr = None"
proof -
  have "NewClient_health unreachable_helm (2 * 60 * Second) None tr = None"
    by (rule NewClient_health_diverges) (simp_all add: unreachable_helm_def Second_def)
  then show ?thesis by (simp add: unreachable_helm_def)
qed

subsection \<open>\<^verbatim>\<open>NewClient\<close>\<close>

lemma ensureTiller_cluster0:
  "ensureTiller cluster0 cfg0 False tr =
     (None, tr @ [DeploymentsGet ''kube-system'' ''tiller-deploy'',
                  LogStartWait ''Waiting for Tiller server to start'',
                  DeploymentsGet ''kube-system'' ''tiller-deploy'',
                  LogStopWait, LogDone ''Tiller server started''])"
  by (simp add: ensureTiller_def ensureTiller_wait_def cluster0_def cfg0_def
      tillerDeploymentName_def tillerServiceAccountName_def Second_def)

lemma NewClient_tunnel_cluster0:
  "0 < w \<Longrightarrow> NewClient_tunnel cluster0 cfg0 w st tr =
     ((Some 44134, None), tr @ [PortforwarderNew ''kube-system''])"
  by (simp add: cluster0_def cfg0_def)

text \<open>
  Claim C10. On every failure along its way, the RPC health check included,
  \<^verbatim>\<open>NewClient\<close> should return a nil wrapper together with the error. Evaluated on a
  healthy cluster and machine whose release server fails every list call:
  \<^verbatim>\<open>NewClient\<close> does not return.
\<close>

theorem NewClient_never_returns:
  "NewClient unreachable_host cfg0 cluster0 False [] = None"
proof -
  have cfgok: "h_GetClientConfig unreachable_host [] = None"
    by (simp add: unreachable_host_def host0_def)
  have client: "h_NewHelmClient unreachable_host 44134 helmCheckInterval = unreachable_helm"
    by (simp add: unreachable_host_def host0_def)
  have health: "\<And>w tr. 0 < w \<Longrightarrow> NewClient_health unreachable_helm w None tr = None"
    by (rule NewClient_health_diverges) (simp_all add: unreachable_helm_def)
  show ?thesis
    by (simp add: NewClient_def cfgok ensureTiller_cluster0 NewClient_tunnel_cluster0 client
        health Let_def Second_def del: NewClient_tunnel.simps)
qed

text \<open>
  On the healthy environment \<^verbatim>\<open>NewClient\<close> returns a wrapper and no error; and whenever
  \<^verbatim>\<open>NewClient\<close> returns, the wrapper is non-nil exactly when the error is nil.
\<close>

lemma NewClient_host0:
  "\<exists>wrapper tr. NewClient host0 cfg0 cluster0 False [] = Some (Return (Some wrapper, None), tr)"
proof -
  have cfgok: "h_GetClientConfig host0 [] = None"
    by (simp add: host0_def)
  have client: "h_NewHelmClient host0 44134 helmCheckInterval = helm0"
    by (simp add: host0_def)
  have health: "\<And>w tr. 0 < w \<Longrightarrow>
      NewClient_health helm0 w None tr = Some (None, tr @ [ListReleases 1])"
    by (rule NewClient_health_returns) (simp_all add: helm0_def)
  have home: "\<And>k c tr. \<exists>wrapper tr'. NewClient_home host0 k c tr = Some ((Some wrapper, None), tr')"
    by (simp add: NewClient_home_def host0_def Let_def)
  obtain wrapper tr' where "NewClient_home host0 cluster0 helm0
      [GetClientConfig, DeploymentsGet ''kube-system'' ''tiller-deploy'',
       LogStartWait ''Waiting for Tiller server to start'',
       DeploymentsGet ''kube-system'' ''tiller-deploy'', LogStopWait,
       LogDone ''Tiller server started'',
       LogStartWait ''Waiting for tiller portforwarding to become ready'',
       PortforwarderNew ''kube-system'', LogStopWait,
       LogStartWait ''Waiting for tiller server to become ready'',
       ListReleases 1, LogStopWait, LogDone ''Tiller server is ready'']
     = Some ((Some wrapper, None), tr')"
    using home by blast
  then show ?thesis
    by (simp add: NewClient_def cfgok ensureTiller_cluster0 NewClient_tunnel_cluster0 client
        health Let_def Second_def del: NewClient_tunnel.simps)
qed

lemma NewClient_home_shape:
  "NewClient_home h k c tr = Some ((w, e), tr') \<Longrightarrow> (w \<noteq> None) = (e = None)"
  by (auto simp: NewClient_home_def Let_def split: sum.splits option.splits)

lemma NewClient_wrapper_iff_no_error:
  assumes ret: "NewClient h cfg k upgrade tr = Some (Return (w, e), tr')"
  shows "(w \<noteq> None) = (e = None)"
proof (cases "h_GetClientConfig h tr")
  case (Some err)
  with ret have "w = None \<and> e = Some err" by (auto simp: NewClient_def)
  then show ?thesis by simp
next
  case None
  obtain te tr1 where et: "ensureTiller k cfg upgrade (tr @ [GetClientConfig]) = (te, tr1)"
    by (cases "ensureTiller k cfg upgrade (tr @ [GetClientConfig])")
  show ?thesis
  proof (cases te)
    case (Some tillerErr)
    with ret None et have "w = None \<and> e = Some tillerErr" by (auto simp: NewClient_def)
    then show ?thesis by simp
  next
    case te: None
    obtain tunnel tunnelErr tr3 where tn: "NewClient_tunnel k cfg (2 * 60 * Second) (None, None)
        (tr1 @ [LogStartWait ''Waiting for tiller portforwarding to become ready''])
        = ((tunnel, tunnelErr), tr3)"
      by (metis prod.collapse)
    show ?thesis
    proof (cases tunnelErr)
      case (Some err)
      with ret None et te tn have "w = None \<and> e = Some err"
        by (auto simp: NewClient_def Let_def simp del: NewClient_tunnel.simps)
      then show ?thesis by simp
    next
      case terr: None
      show ?thesis
      proof (cases tunnel)
        case None
        with ret \<open>h_GetClientConfig h tr = None\<close> et te tn terr show ?thesis
          by (simp add: NewClient_def Let_def del: NewClient_tunnel.simps)
      next
        case (Some port)
        let ?client = "h_NewHelmClient h port helmCheckInterval"
        let ?tr5 = "(tr3 @ [LogStopWait]) @ [LogStartWait ''Waiting for tiller server to become ready'']"
        show ?thesis
        proof (cases "NewClient_health ?client (2 * 60 * Second) None ?tr5")
          case None
          with ret \<open>h_GetClientConfig h tr = None\<close> et te tn terr Some show ?thesis
            by (simp add: NewClient_def Let_def del: NewClient_tunnel.simps)
        next
          case hl: (Some y)
          obtain tillerError tr6 where y: "y = (tillerError, tr6)" by (cases y)
          show ?thesis
          proof (cases tillerError)
            case (Some err)
            with ret \<open>h_GetClientConfig h tr = None\<close> et te tn terr \<open>tunnel = Some port\<close> hl y
            have "w = None \<and> e = Some err"
              by (auto simp: NewClient_def Let_def simp del: NewClient_tunnel.simps)
            then show ?thesis by simp
          next
            case None
            with ret \<open>h_GetClientConfig h tr = None\<close> et te tn terr \<open>tunnel = Some port\<close> hl y
            have "\<exists>t. NewClient_home h k ?client t = Some ((w, e), tr')"
              by (auto simp: NewClient_def Let_def split: prod.splits option.splits
                  simp del: NewClient_tunnel.simps)
            then show ?thesis by (auto dest: NewClient_home_shape)
          qed
        qed
      qed
    qed
  qed
qed

end
